theory Spec2Isabelle
  imports Complex_Main
begin

section \<open>JSON documents and Python exceptions\<close>

text \<open>
  Forms, classifier answers and message payloads travel as JSON. An object keeps its
  members as an association list, in document order.
\<close>

datatype json =
    JNull
  | JBool bool
  | JInt int
  | JFloat real
  | JStr string
  | JList "json list"
  | JObj "(string \<times> json) list"

text \<open>
  One entry of a pydantic \<open>ValidationError\<close>: the location (field names and list
  indices from the validated model down to the offending value) and the message.
\<close>

datatype loc_item = Key string | Idx nat

datatype line_error = LineError "loc_item list" string

text \<open>
  The exceptions the modelled code can raise. \<open>ModelError\<close> stands for any failure of
  a call to the language model (transport, quota, refusal).
\<close>

datatype error =
    ValidationError "line_error list"
  | ValueError string
  | AttributeError string
  | TypeError
  | KeyError string
  | IndexError
  | UnicodeDecodeError
  | binascii_Error
  | HTTPException nat
  | ModelError string

fun and_then :: "'e + 'a \<Rightarrow> ('a \<Rightarrow> 'e + 'b) \<Rightarrow> 'e + 'b" where
  "and_then (Inl e) f = Inl e"
| "and_then (Inr x) f = f x"

text \<open>\<open>xs[-k]\<close> for a positive \<open>k\<close>: Python raises \<open>IndexError\<close> on a list shorter than \<open>k\<close>.\<close>

definition from_end :: "'a list \<Rightarrow> nat \<Rightarrow> error + 'a" where
  "from_end xs k =
     (if 0 < k \<and> k \<le> length xs then Inr (xs ! (length xs - k)) else Inl IndexError)"

text \<open>
  \<open>d[key]\<close> on the result of \<open>json.loads\<close>: of two members with one key the later
  stands, a dictionary without the key raises \<open>KeyError\<close>, and a value that is no
  dictionary cannot be indexed by a string.
\<close>

fun getitem :: "json \<Rightarrow> string \<Rightarrow> error + json" where
  "getitem (JObj kvs) k =
     (case map_of (rev kvs) k of Some v \<Rightarrow> Inr v | None \<Rightarrow> Inl (KeyError k))"
| "getitem _ k = Inl TypeError"


section \<open>Conversation messages and the language-model capability (ai.py)\<close>

datatype role = system | user | assistant

text \<open>
  A content part of a message. \<open>json_part v\<close> is a text part whose text is the JSON
  document \<open>v\<close>, as appended by a schema-constrained generation; \<open>image_url_part\<close>
  carries the data URL of an attached page.
\<close>

datatype part = text_part string | json_part json | image_url_part string

datatype ContentMessage = ContentMessage role "part list"

text \<open>
  The interpreter state of the model object: the closed messages and the message of the
  role block that is still open. A \<open>with assistant():\<close> block is closed when the next
  block is entered, so after the last block of a call its message is the active one.
\<close>

record State =
  messages :: "ContentMessage list"
  active :: "ContentMessage option"

definition get_active_message :: "State \<Rightarrow> ContentMessage option" where
  "get_active_message st = active st"

definition close_block :: "State \<Rightarrow> State" where
  "close_block st =
     st\<lparr>messages := messages st @ (case active st of None \<Rightarrow> [] | Some m \<Rightarrow> [m]),
        active := None\<rparr>"

datatype Response = yes | no

fun Response_value :: "Response \<Rightarrow> string" where
  "Response_value yes = ''yes''"
| "Response_value no = ''no''"

text \<open>
  The language model is an opaque capability: given the conversation so far it answers
  the two kinds of request the code makes, or fails. \<open>json\<close> is the schema-constrained
  \<open>json(name=..., schema=...)\<close>, asked with the schema \<open>YesNo\<close> for the classification
  and with the schema \<open>Form\<close> for the structure; its answer is the generated document. A
  model that keeps to the schema \<open>YesNo\<close> answers \<open>{"selection": "yes"}\<close> or
  \<open>{"selection": "no"}\<close>; the code reads whatever document comes. \<open>gen\<close> is the
  free-text \<open>gen("message")\<close>.
\<close>

datatype schema = YesNo_schema | Form_schema

record Model =
  json :: "schema \<Rightarrow> ContentMessage list \<Rightarrow> error + json"
  gen :: "ContentMessage list \<Rightarrow> error + string"

definition YesNo_json :: "Response \<Rightarrow> json" where
  "YesNo_json r = JObj [(''selection'', JStr (Response_value r))]"

text \<open>\<open>with assistant(): lm += "..."\<close>, for the fixed texts of ai.py, none of which is empty.\<close>

definition assistant_text :: "State \<Rightarrow> string \<Rightarrow> State" where
  "assistant_text st txt =
     (close_block st)\<lparr>active := Some (ContentMessage assistant [text_part txt])\<rparr>"

text \<open>
  \<open>with assistant(): lm += json(name=..., schema=...)\<close>, with the captured document
  (\<open>lm["yes_no"]\<close> read by \<open>json.loads\<close>).
\<close>

definition assistant_json :: "Model \<Rightarrow> schema \<Rightarrow> State \<Rightarrow> error + State \<times> json" where
  "assistant_json lm sch st =
     (let st' = close_block st in
      and_then (json lm sch (messages st')) (\<lambda>v.
        Inr (st'\<lparr>active := Some (ContentMessage assistant [json_part v])\<rparr>, v)))"

text \<open>
  \<open>with assistant(): lm += gen("message")\<close>. A completion that is empty adds no content
  to the role block, and a block without content has no active message:
  \<open>get_active_message()\<close> is then \<open>None\<close>.
\<close>

definition generated_message :: "string \<Rightarrow> ContentMessage option" where
  "generated_message s = (if s = [] then None else Some (ContentMessage assistant [text_part s]))"

definition assistant_gen :: "Model \<Rightarrow> State \<Rightarrow> error + State" where
  "assistant_gen lm st =
     (let st' = close_block st in
      and_then (gen lm (messages st')) (\<lambda>s.
        Inr (st'\<lparr>active := generated_message s\<rparr>)))"

text \<open>
  The fixed texts of ai.py (line breaks and apostrophes of the Python literals are not
  reproduced; no property depends on their wording).
\<close>

definition BUILD_ANALYZE :: string where
  "BUILD_ANALYZE = ''Now I will analyze the user request to determine if they are asking to create a new form or modify an existing one. If any of the above is true, I will respond with a JSON object containing the form structure. If not, I will continue with the conversation as usual. So, Is the user asking to create a new form or modify an existing one?''"

definition BUILD_GENERATE :: string where
  "BUILD_GENERATE = ''Now I will generate a new form based on the user request.''"

definition BUILD_COMMENT :: string where
  "BUILD_COMMENT = ''Now I will provide additional commentary/end of message comment on the above form structure but not repeat the structure itself.''"

definition BUILD_CONTINUE :: string where
  "BUILD_CONTINUE = ''The user is not asking to create a new form or modify an existing one. I will continue with the conversation as usual.''"

definition FILL_ANALYZE :: string where
  "FILL_ANALYZE = ''Now I will analyze the user request to determine if they are asking to fill out a form based on the provided form structure. If yes I will respond with a JSON object containing the filled form. If not, I will continue with the conversation as usual.''"

definition FILL_GENERATE :: string where
  "FILL_GENERATE = ''Now I will generate a filled form based on the user request.''"

definition FILL_COMMENT :: string where
  "FILL_COMMENT = ''Now I will provide additional commentary/end of message comment on the above filled form but not repeat the form itself.''"

definition FILL_CONTINUE :: string where
  "FILL_CONTINUE = ''The user is not asking to fill out a form based on the provided form structure. I will continue with the conversation as usual.''"

text \<open>
  The turn of both flows. The two functions of ai.py differ in their fixed texts only,
  so one function takes the four texts; \<open>new_messages\<close> starts as the empty list and
  stays so when \<open>selection\<close> is neither \<open>"yes"\<close> nor \<open>"no"\<close>.
\<close>

definition chat_turn ::
  "string \<Rightarrow> string \<Rightarrow> string \<Rightarrow> string \<Rightarrow> Model \<Rightarrow> ContentMessage list
     \<Rightarrow> error + ContentMessage option list" where
  "chat_turn analyze generate comment continue lm msgs =
     (let st = assistant_text \<lparr>messages = msgs, active = None\<rparr> analyze in
      and_then (assistant_json lm YesNo_schema st) (\<lambda>(st, yes_no).
      and_then (getitem yes_no ''selection'') (\<lambda>selection.
        if selection = JStr (Response_value yes) then
          and_then (assistant_json lm Form_schema (assistant_text st generate)) (\<lambda>(st, new_form).
          and_then (assistant_gen lm (assistant_text st comment)) (\<lambda>st.
          and_then (from_end (messages st) 2) (\<lambda>m.
            Inr [Some m, get_active_message st])))
        else if selection = JStr (Response_value no) then
          and_then (assistant_gen lm (assistant_text st continue)) (\<lambda>st.
            Inr [get_active_message st])
        else Inr [])))"

definition fastformbuild_chat ::
  "Model \<Rightarrow> ContentMessage list \<Rightarrow> error + ContentMessage option list" where
  "fastformbuild_chat = chat_turn BUILD_ANALYZE BUILD_GENERATE BUILD_COMMENT BUILD_CONTINUE"

definition fastformfill_chat ::
  "Model \<Rightarrow> ContentMessage list \<Rightarrow> error + ContentMessage option list" where
  "fastformfill_chat = chat_turn FILL_ANALYZE FILL_GENERATE FILL_COMMENT FILL_CONTINUE"


section \<open>The schema model (fastform.py)\<close>

subsection \<open>Validation of JSON input against declared types\<close>

text \<open>
  The classes of fastform.py are declarations; what validates an input is the pydantic
  library, driven by them. Its rules are written out here for JSON input (what a
  language model emits and \<open>model_validate_json\<close> reads). A validated value:
\<close>

datatype pyval =
    VNone
  | VBool bool
  | VInt int
  | VFloat real
  | VStr string
  | VList "pyval list"
  | VEnum string
  | VDict "(string \<times> pyval) list"
  | VModel string "(string \<times> pyval) list"

type_synonym validator = "json \<Rightarrow> error + pyval"

text \<open>
  A validator answers \<open>Inr\<close> the validated value, \<open>Inl (ValidationError es)\<close> with the
  collected entries, or \<open>Inl\<close> another exception, which escapes validation at once.

  A scalar type accepts the JSON kind it names. What else it accepts (lax mode turns
  some numeric strings, integral floats and booleans into numbers, and back) is the
  library's conversion table, taken as the parameter \<open>cv\<close>: every theorem below holds
  whatever that table is.
\<close>

datatype scalar = int_type | float_type | bool_type

type_synonym conversions = "scalar \<Rightarrow> json \<Rightarrow> pyval option"

definition invalid :: "string \<Rightarrow> error + pyval" where
  "invalid msg = Inl (ValidationError [LineError [] msg])"

definition lax :: "conversions \<Rightarrow> scalar \<Rightarrow> string \<Rightarrow> validator" where
  "lax cv t msg j = (case cv t j of Some v \<Rightarrow> Inr v | None \<Rightarrow> invalid msg)"

fun str_t :: validator where
  "str_t (JStr s) = Inr (VStr s)"
| "str_t _ = invalid ''Input should be a valid string''"

fun none_t :: validator where
  "none_t JNull = Inr VNone"
| "none_t _ = invalid ''Input should be None''"

fun int_t :: "conversions \<Rightarrow> validator" where
  "int_t cv (JInt i) = Inr (VInt i)"
| "int_t cv j = lax cv int_type ''Input should be a valid integer'' j"

fun float_t :: "conversions \<Rightarrow> validator" where
  "float_t cv (JFloat r) = Inr (VFloat r)"
| "float_t cv (JInt i) = Inr (VFloat (of_int i))"
| "float_t cv j = lax cv float_type ''Input should be a valid number'' j"

fun bool_t :: "conversions \<Rightarrow> validator" where
  "bool_t cv (JBool b) = Inr (VBool b)"
| "bool_t cv j = lax cv bool_type ''Input should be a valid boolean'' j"

text \<open>An \<open>Enum\<close> with string values: the input must be the value of a member.\<close>

definition enum_t :: "string list \<Rightarrow> validator" where
  "enum_t members j =
     (case j of
        JStr s \<Rightarrow> if s \<in> set members then Inr (VEnum s) else invalid ''Input should be a member of the enumeration''
      | _ \<Rightarrow> invalid ''Input should be a member of the enumeration'')"

definition under :: "loc_item \<Rightarrow> line_error \<Rightarrow> line_error" where
  "under l e = (case e of LineError loc msg \<Rightarrow> LineError (l # loc) msg)"

text \<open>
  \<open>A | B | ...\<close>: the members are tried in the order of the declaration and the first
  that accepts gives the value; when none does, their entries are collected. (The
  library prefers, among several accepting members, one that matches without
  conversion: that changes the value returned, never whether the input is accepted.)
\<close>

fun union_t :: "validator list \<Rightarrow> validator" where
  "union_t [] j = Inl (ValidationError [])"
| "union_t (v # vs) j =
     (case v j of
        Inr x \<Rightarrow> Inr x
      | Inl (ValidationError es) \<Rightarrow>
          (case union_t vs j of
             Inr x \<Rightarrow> Inr x
           | Inl (ValidationError es') \<Rightarrow> Inl (ValidationError (es @ es'))
           | Inl e \<Rightarrow> Inl e)
      | Inl e \<Rightarrow> Inl e)"

text \<open>
  A value that failed with entries \<open>es\<close> does not stop the validation of what follows
  it (the remaining items of a list, the remaining fields of a model): the entries of
  the rest are collected too, and an exception raised there still escapes.
\<close>

fun also_errors :: "line_error list \<Rightarrow> error + 'a \<Rightarrow> error + 'b" where
  "also_errors es (Inr x) = Inl (ValidationError es)"
| "also_errors es (Inl (ValidationError es')) = Inl (ValidationError (es @ es'))"
| "also_errors es (Inl e) = Inl e"

text \<open>The items of a list, validated in order.\<close>

fun items_t :: "validator \<Rightarrow> nat \<Rightarrow> json list \<Rightarrow> error + pyval list" where
  "items_t item i [] = Inr []"
| "items_t item i (x # xs) =
     (case item x of
        Inr v \<Rightarrow> and_then (items_t item (Suc i) xs) (\<lambda>vs. Inr (v # vs))
      | Inl (ValidationError es) \<Rightarrow> also_errors (map (under (Idx i)) es) (items_t item (Suc i) xs)
      | Inl e \<Rightarrow> Inl e)"

text \<open>\<open>list[T]\<close>, with the \<open>min_length\<close> and \<open>max_length\<close> of its \<open>Field\<close> when given.\<close>

definition list_t :: "nat option \<Rightarrow> nat option \<Rightarrow> validator \<Rightarrow> validator" where
  "list_t min_length max_length item j =
     (case j of
        JList xs \<Rightarrow>
          and_then (items_t item 0 xs) (\<lambda>vs.
            if (case min_length of Some n \<Rightarrow> length xs < n | None \<Rightarrow> False)
              then invalid ''List should have more items''
            else if (case max_length of Some n \<Rightarrow> n < length xs | None \<Rightarrow> False)
              then invalid ''List should have fewer items''
            else Inr (VList vs))
      | _ \<Rightarrow> invalid ''Input should be a valid list'')"

text \<open>
  A declared field: its name and its validator, which may read \<open>info.data\<close>, the fields
  validated before it. All fields of fastform.py are required (\<open>Field(...)\<close> or a bare
  annotation).
\<close>

type_synonym field_info = "(string \<times> pyval) list"

type_synonym field = "string \<times> (field_info \<Rightarrow> validator)"

definition Field :: "string \<Rightarrow> validator \<Rightarrow> field" where
  "Field name v = (name, \<lambda>data. v)"

text \<open>
  \<open>@field_validator(name, mode="after")\<close>: the function runs on the validated value of
  the field; a \<open>ValueError\<close> it raises becomes an entry at the field.
\<close>

definition field_validator ::
  "string \<Rightarrow> (pyval \<Rightarrow> field_info \<Rightarrow> error + pyval) \<Rightarrow> validator \<Rightarrow> field" where
  "field_validator name f v =
     (name, \<lambda>data j.
        case v j of
          Inl e \<Rightarrow> Inl e
        | Inr x \<Rightarrow>
            (case f x data of
               Inl (ValueError msg) \<Rightarrow> invalid (''Value error, '' @ msg)
             | r \<Rightarrow> r))"

text \<open>A JSON object read as a dictionary: of two members with one key the later stands.\<close>

definition obj_member :: "(string \<times> json) list \<Rightarrow> string \<Rightarrow> json option" where
  "obj_member obj k = map_of (rev obj) k"

definition validate_field :: "field \<Rightarrow> (string \<times> json) list \<Rightarrow> field_info \<Rightarrow> error + pyval" where
  "validate_field f obj data =
     (case obj_member obj (fst f) of
        None \<Rightarrow> invalid ''Field required''
      | Some j \<Rightarrow> snd f data j)"

fun validate_fields ::
  "field list \<Rightarrow> (string \<times> json) list \<Rightarrow> field_info \<Rightarrow> error + field_info" where
  "validate_fields [] obj data = Inr data"
| "validate_fields (f # fs) obj data =
     (case validate_field f obj data of
        Inr x \<Rightarrow> validate_fields fs obj (data @ [(fst f, x)])
      | Inl (ValidationError es) \<Rightarrow>
          also_errors (map (under (Key (fst f))) es) (validate_fields fs obj data)
      | Inl e \<Rightarrow> Inl e)"

text \<open>\<open>model_config = ConfigDict(extra="forbid")\<close>: one entry for each undeclared key.\<close>

definition extra_forbidden :: "field list \<Rightarrow> (string \<times> json) list \<Rightarrow> line_error list" where
  "extra_forbidden fs obj =
     map (\<lambda>k. LineError [Key k] ''Extra inputs are not permitted'')
       (filter (\<lambda>k. k \<notin> set (map fst fs)) (map fst obj))"

text \<open>
  \<open>@model_validator(mode="after")\<close>: the function runs on the instance once all fields
  are valid; a \<open>ValueError\<close> becomes an entry, any other exception escapes.
\<close>

definition model_validator :: "(pyval \<Rightarrow> error + pyval) \<Rightarrow> pyval \<Rightarrow> error + pyval" where
  "model_validator f inst =
     (case f inst of
        Inl (ValueError msg) \<Rightarrow> invalid (''Value error, '' @ msg)
      | r \<Rightarrow> r)"

text \<open>A model class: its name, its fields in declaration order, its after-validator.\<close>

definition model_t ::
  "string \<Rightarrow> field list \<Rightarrow> (pyval \<Rightarrow> error + pyval) \<Rightarrow> validator" where
  "model_t name fs after j =
     (case j of
        JObj obj \<Rightarrow>
          (case validate_fields fs obj [] of
             Inl (ValidationError es) \<Rightarrow> Inl (ValidationError (es @ extra_forbidden fs obj))
           | Inl e \<Rightarrow> Inl e
           | Inr data \<Rightarrow>
               if extra_forbidden fs obj \<noteq> [] then Inl (ValidationError (extra_forbidden fs obj))
               else after (VModel name data))
      | _ \<Rightarrow> invalid ''Input should be a valid dictionary or object'')"

definition BaseModel :: "string \<Rightarrow> field list \<Rightarrow> validator" where
  "BaseModel name fs = model_t name fs Inr"


subsection \<open>Python operations used by the validators of fastform.py\<close>

text \<open>
  \<open>obj.get(key)\<close>: a dictionary has the method; a model instance has no attribute
  \<open>get\<close> (it is not one of its fields), nor has any other validated value.
\<close>

fun dot_get :: "pyval \<Rightarrow> string \<Rightarrow> error + pyval" where
  "dot_get (VDict kvs) k = Inr (case map_of kvs k of Some v \<Rightarrow> v | None \<Rightarrow> VNone)"
| "dot_get _ k = Inl (AttributeError ''get'')"

fun truthy :: "pyval \<Rightarrow> bool" where
  "truthy VNone = False"
| "truthy (VBool b) = b"
| "truthy (VInt i) = (i \<noteq> 0)"
| "truthy (VFloat r) = (r \<noteq> 0)"
| "truthy (VStr s) = (s \<noteq> [])"
| "truthy (VList xs) = (xs \<noteq> [])"
| "truthy (VEnum s) = True"
| "truthy (VDict kvs) = (kvs \<noteq> [])"
| "truthy (VModel c fs) = True"

fun isinstance_list :: "pyval \<Rightarrow> bool" where
  "isinstance_list (VList xs) = True"
| "isinstance_list _ = False"

fun len :: "pyval \<Rightarrow> error + nat" where
  "len (VList xs) = Inr (length xs)"
| "len (VStr s) = Inr (length s)"
| "len (VDict kvs) = Inr (length kvs)"
| "len _ = Inl TypeError"

subsection \<open>The declared classes\<close>

definition Coordinate :: "conversions \<Rightarrow> validator" where
  "Coordinate cv = BaseModel ''Coordinate''
     [Field ''x'' (union_t [int_t cv, none_t]),
      Field ''y'' (union_t [int_t cv, none_t])]"

definition AnnotationEnum :: "string list" where
  "AnnotationEnum =
     [''TextField'', ''TextAreaField'', ''NumberField'', ''DateField'', ''CheckboxField'',
      ''RadioField'', ''SelectField'', ''FileField'', ''ImageField'', ''SignatureField'',
      ''EmailField'', ''UrlField'', ''PhoneField'', ''ListField'']"

definition Annotation_fields :: "conversions \<Rightarrow> field list" where
  "Annotation_fields cv =
     [Field ''title'' str_t,
      Field ''description'' str_t,
      Field ''bbox'' (list_t (Some 2) (Some 2) (Coordinate cv)),
      Field ''element_name'' (enum_t AnnotationEnum)]"

definition Annotation :: "conversions \<Rightarrow> validator" where
  "Annotation cv = BaseModel ''Annotation'' (Annotation_fields cv)"

definition TextField :: "conversions \<Rightarrow> validator" where
  "TextField cv = BaseModel ''TextField''
     (Annotation_fields cv @ [Field ''value'' (union_t [str_t, none_t])])"

definition TextAreaField :: "conversions \<Rightarrow> validator" where
  "TextAreaField cv = BaseModel ''TextAreaField''
     (Annotation_fields cv @
      [Field ''value'' (union_t [str_t, none_t]),
       Field ''max_length'' (union_t [int_t cv, none_t])])"

definition NumberField :: "conversions \<Rightarrow> validator" where
  "NumberField cv = BaseModel ''NumberField''
     (Annotation_fields cv @
      [Field ''value'' (union_t [int_t cv, float_t cv, none_t]),
       Field ''min_value'' (union_t [int_t cv, float_t cv, none_t]),
       Field ''max_value'' (union_t [int_t cv, float_t cv, none_t])])"

definition DateField :: "conversions \<Rightarrow> validator" where
  "DateField cv = BaseModel ''DateField''
     (Annotation_fields cv @ [Field ''value'' (union_t [str_t, none_t])])"

definition CheckboxField :: "conversions \<Rightarrow> validator" where
  "CheckboxField cv = BaseModel ''CheckboxField''
     (Annotation_fields cv @ [Field ''value'' (union_t [bool_t cv, none_t])])"

definition RadioField :: "conversions \<Rightarrow> validator" where
  "RadioField cv = BaseModel ''RadioField''
     (Annotation_fields cv @
      [Field ''options'' (list_t None None str_t),
       Field ''value'' (union_t [str_t, none_t])])"

definition SelectOption :: "conversions \<Rightarrow> validator" where
  "SelectOption cv = BaseModel ''SelectOption''
     [Field ''label'' str_t,
      Field ''value'' (union_t [str_t, int_t cv, float_t cv])]"

text \<open>
  \<open>check_select(cls, values)\<close> as written. It reads its argument with \<open>.get\<close>, as a
  dictionary of field values.
\<close>

definition check_select :: "pyval \<Rightarrow> error + pyval" where
  "check_select values =
     and_then (dot_get values ''multi'') (\<lambda>multi.
     and_then (dot_get values ''value'') (\<lambda>val.
       if truthy multi \<and> val \<noteq> VNone \<and> \<not> isinstance_list val
         then Inl (ValueError ''When multi=True, value must be a list'')
       else if \<not> truthy multi \<and> isinstance_list val
         then Inl (ValueError ''When multi=False, value must be a single item'')
       else Inr values))"

text \<open>
  The decorator is \<open>@model_validator(mode="after")\<close>. The library binds a function
  whose first parameter is named \<open>cls\<close> as a class method and calls an after-validator
  with the validated instance, so \<open>values\<close> is the \<open>SelectField\<close> instance.
\<close>

definition SelectField_fields :: "conversions \<Rightarrow> field list" where
  "SelectField_fields cv =
     Annotation_fields cv @
     [Field ''options'' (list_t None None (SelectOption cv)),
      Field ''multi'' (bool_t cv),
      Field ''value'' (union_t [list_t None None (SelectOption cv), SelectOption cv, none_t])]"

definition SelectField :: "conversions \<Rightarrow> validator" where
  "SelectField cv =
     model_t ''SelectField'' (SelectField_fields cv) (model_validator check_select)"

definition FileField_fields :: "conversions \<Rightarrow> field list" where
  "FileField_fields cv =
     Annotation_fields cv @
     [Field ''allowed'' (list_t None None str_t),
      Field ''max_mb'' (union_t [int_t cv, none_t]),
      Field ''value'' (union_t [str_t, none_t])]"

definition FileField :: "conversions \<Rightarrow> validator" where
  "FileField cv = BaseModel ''FileField'' (FileField_fields cv)"

text \<open>\<open>ImageField(FileField)\<close> declares \<open>allowed\<close> again, with the same type.\<close>

definition ImageField :: "conversions \<Rightarrow> validator" where
  "ImageField cv = BaseModel ''ImageField'' (FileField_fields cv)"

definition SignatureField :: "conversions \<Rightarrow> validator" where
  "SignatureField cv = BaseModel ''SignatureField''
     (Annotation_fields cv @ [Field ''value'' (union_t [str_t, none_t])])"

definition EmailField :: "conversions \<Rightarrow> validator" where
  "EmailField cv = BaseModel ''EmailField''
     (Annotation_fields cv @ [Field ''value'' (union_t [str_t, none_t])])"

definition UrlField :: "conversions \<Rightarrow> validator" where
  "UrlField cv = BaseModel ''UrlField''
     (Annotation_fields cv @ [Field ''value'' (union_t [str_t, none_t])])"

definition PhoneField :: "conversions \<Rightarrow> validator" where
  "PhoneField cv = BaseModel ''PhoneField''
     (Annotation_fields cv @ [Field ''value'' (union_t [str_t, none_t])])"

text \<open>
  \<open>ListField(Annotation, Generic[t])\<close> is used unparametrised (\<open>ListField[t]\<close> with its
  own type variable), so an item is validated against the bound of \<open>t\<close>, \<open>Annotation\<close>.
\<close>

definition ListField :: "conversions \<Rightarrow> validator" where
  "ListField cv = BaseModel ''ListField''
     (Annotation_fields cv @
      [Field ''items'' (union_t [list_t None None (Annotation cv), none_t])])"

definition AnnotationGroupEnum :: "string list" where
  "AnnotationGroupEnum = [''SectionGroup'', ''RepeatGroup'', ''WizardStep'', ''TableGroup'']"

definition AnnotationGroup_fields :: "conversions \<Rightarrow> field list" where
  "AnnotationGroup_fields cv =
     [Field ''title'' str_t,
      Field ''description'' str_t,
      Field ''annotations'' (list_t (Some 1) None (Annotation cv)),
      Field ''element_name'' (enum_t AnnotationGroupEnum)]"

definition AnnotationGroup :: "conversions \<Rightarrow> validator" where
  "AnnotationGroup cv = BaseModel ''AnnotationGroup'' (AnnotationGroup_fields cv)"

definition SectionGroup :: "conversions \<Rightarrow> validator" where
  "SectionGroup cv = BaseModel ''SectionGroup''
     (AnnotationGroup_fields cv @
      [Field ''collapsible'' (bool_t cv),
       Field ''collapsed'' (bool_t cv)])"

definition RepeatGroup :: "conversions \<Rightarrow> validator" where
  "RepeatGroup cv = BaseModel ''RepeatGroup''
     (AnnotationGroup_fields cv @
      [Field ''min_val'' (int_t cv),
       Field ''max_val'' (union_t [int_t cv, none_t])])"

definition WizardStep :: "conversions \<Rightarrow> validator" where
  "WizardStep cv = BaseModel ''WizardStep''
     (AnnotationGroup_fields cv @
      [Field ''order'' (union_t [int_t cv, none_t]),
       Field ''optional'' (bool_t cv)])"

text \<open>The union of \<open>TableGroup.rows\<close>: every field variant and every group but the table.\<close>

definition cell_types :: "conversions \<Rightarrow> validator list" where
  "cell_types cv =
     [TextField cv, TextAreaField cv, NumberField cv, DateField cv, CheckboxField cv,
      RadioField cv, SelectField cv, FileField cv, ImageField cv, SignatureField cv,
      EmailField cv, UrlField cv, PhoneField cv, ListField cv,
      SectionGroup cv, RepeatGroup cv, WizardStep cv]"

text \<open>
  \<open>match_columns(cls, rows, info)\<close>: \<open>columns\<close> is read from the fields validated so
  far, the empty list when it is not among them; the loop stops at the first row whose
  length differs.
\<close>

fun match_rows :: "pyval list \<Rightarrow> pyval \<Rightarrow> error + unit" where
  "match_rows [] columns = Inr ()"
| "match_rows (row # rows) columns =
     and_then (len row) (\<lambda>n.
     and_then (len columns) (\<lambda>m.
       if n \<noteq> m then Inl (ValueError ''Row length must equal number of columns'')
       else match_rows rows columns))"

definition match_columns :: "pyval \<Rightarrow> field_info \<Rightarrow> error + pyval" where
  "match_columns rows data =
     (let columns = (case map_of data ''columns'' of Some c \<Rightarrow> c | None \<Rightarrow> VList []) in
      case (if truthy rows then rows else VList []) of
        VList rs \<Rightarrow> and_then (match_rows rs columns) (\<lambda>_. Inr rows)
      | _ \<Rightarrow> Inl TypeError)"

definition TableGroup_fields :: "conversions \<Rightarrow> field list" where
  "TableGroup_fields cv =
     AnnotationGroup_fields cv @
     [Field ''columns'' (list_t None None str_t),
      field_validator ''rows'' match_columns
        (list_t None None (list_t None None (union_t (cell_types cv))))]"

definition TableGroup :: "conversions \<Rightarrow> validator" where
  "TableGroup cv = BaseModel ''TableGroup'' (TableGroup_fields cv)"

definition Form_fields :: "conversions \<Rightarrow> field list" where
  "Form_fields cv =
     [Field ''title'' str_t,
      Field ''description'' str_t,
      Field ''elements'' (list_t None None (union_t (cell_types cv @ [TableGroup cv])))]"

definition Form :: "conversions \<Rightarrow> validator" where
  "Form cv = BaseModel ''Form'' (Form_fields cv)"


section \<open>The thread assembler (services.py)\<close>

subsection \<open>Stored messages and the database session\<close>

text \<open>
  Modelled from the spec: the table classes \<open>Message\<close> and \<open>Annotation\<close> of models.py,
  which is not among the sources. A conversation message is a role-tagged unit whose
  content is a sequence of typed parts; it belongs to a thread, identified by an opaque
  string, and messages are ordered by creation time within a thread. services.py
  stores the content as the JSON text of a \<open>ContentMessage\<close> and reads it back with
  \<open>model_validate_json\<close>; the row keeps the \<open>ContentMessage\<close> that text denotes. The
  identifier the database gives a row plays no part in the flows and is left out. Of a
  stored annotation the flows read only its \<open>structure\<close>, a string.
\<close>

record Message =
  msg_content :: ContentMessage
  msg_thread_id :: string
  msg_user_id :: string
  timestamp :: nat

text \<open>
  The session: the committed rows of the two tables, the rows added and not yet
  committed, and the clock a new row takes its creation time from.
\<close>

record Session =
  message_table :: "Message list"
  annotation_table :: "(nat \<times> string) list"
  pending :: "Message list"
  clock :: nat

definition new_Message :: "ContentMessage \<Rightarrow> string \<Rightarrow> string \<Rightarrow> Session \<Rightarrow> Message \<times> Session" where
  "new_Message c tid uid s =
     (\<lparr>msg_content = c, msg_thread_id = tid, msg_user_id = uid, timestamp = clock s\<rparr>,
      s\<lparr>clock := Suc (clock s)\<rparr>)"

definition add :: "Session \<Rightarrow> Message \<Rightarrow> Session" where
  "add s m = s\<lparr>pending := pending s @ [m]\<rparr>"

definition commit :: "Session \<Rightarrow> Session" where
  "commit s = s\<lparr>message_table := message_table s @ pending s, pending := []\<rparr>"

text \<open>\<open>MessageCreateBase\<close> and \<open>FastfillMessageCreate\<close> of schemas.py.\<close>

record MessageCreateBase =
  content :: string
  thread_id :: string
  user_id :: string

record FastfillMessageCreate = MessageCreateBase +
  load_annotation_id :: "nat option"

subsection \<open>MessageService and AnnotationService\<close>

definition get_annotation_by_id :: "Session \<Rightarrow> nat \<Rightarrow> error + string" where
  "get_annotation_by_id s annotation_id =
     (case map_of (annotation_table s) annotation_id of
        None \<Rightarrow> Inl (HTTPException 404)
      | Some structure \<Rightarrow> Inr structure)"

text \<open>
  \<open>_get_thread_history\<close>: the rows of the thread, in table order; the query also sees
  the rows added and not yet committed, which the session flushes before it queries.
\<close>

definition get_thread_history :: "Session \<Rightarrow> string \<Rightarrow> error + Message list" where
  "get_thread_history s tid =
     (let thread = filter (\<lambda>m. msg_thread_id m = tid) (message_table s @ pending s) in
      if thread = [] then Inl (HTTPException 404) else Inr thread)"

text \<open>
  \<open>base64.b64decode(b, validate=True)\<close>. Input with a character that is neither one of
  the 64 digits nor the padding sign raises \<open>binascii.Error\<close>. Digits followed by at
  most two padding signs, to a length that is a multiple of four, are decoded: four
  digits give three bytes, a last group of three digits two bytes, of two digits one
  byte. What the library does with any other arrangement of digits and padding signs
  has changed between its versions, and is the parameter \<open>irregular\<close>. Bytes are \<open>char\<close>s.
\<close>

type_synonym bytes = "char list"

definition base64_digits :: "char list" where
  "base64_digits = ''ABCDEFGHIJKLMNOPQRSTUVWXYZabcdefghijklmnopqrstuvwxyz0123456789+/''"

definition b64_index :: "char \<Rightarrow> nat" where
  "b64_index c = length (takeWhile (\<lambda>d. d \<noteq> c) base64_digits)"

fun b64_bytes :: "nat list \<Rightarrow> bytes" where
  "b64_bytes (a # b # c # d # rest) =
     char_of (a * 4 + b div 16) # char_of ((b mod 16) * 16 + c div 4) # char_of ((c mod 4) * 64 + d)
       # b64_bytes rest"
| "b64_bytes [a, b, c] = [char_of (a * 4 + b div 16), char_of ((b mod 16) * 16 + c div 4)]"
| "b64_bytes [a, b] = [char_of (a * 4 + b div 16)]"
| "b64_bytes _ = []"

definition well_padded :: "bytes \<Rightarrow> bool" where
  "well_padded b =
     (let padding = dropWhile (\<lambda>c. c \<noteq> CHR ''='') b
      in list_all (\<lambda>c. c = CHR ''='') padding \<and> length padding \<le> 2 \<and> length b mod 4 = 0)"

definition base64_chars :: "bytes \<Rightarrow> bool" where
  "base64_chars b = list_all (\<lambda>c. c \<in> set base64_digits \<or> c = CHR ''='') b"

definition b64decode :: "(bytes \<Rightarrow> error + bytes) \<Rightarrow> bytes \<Rightarrow> error + bytes" where
  "b64decode irregular b =
     (if \<not> base64_chars b then Inl binascii_Error
      else if well_padded b
        then Inr (b64_bytes (map b64_index (takeWhile (\<lambda>c. c \<noteq> CHR ''='') b)))
      else irregular b)"

text \<open>\<open>_is_valid_base64_image\<close>: whether the decoding raises; the bytes are not looked at.\<close>

definition is_valid_base64_image :: "(bytes \<Rightarrow> error + bytes) \<Rightarrow> bytes \<Rightarrow> bool" where
  "is_valid_base64_image irregular b =
     (case b64decode irregular b of Inr _ \<Rightarrow> True | Inl _ \<Rightarrow> False)"

text \<open>
  \<open>page.decode('utf-8')\<close>: ASCII bytes are their own text. The strings of this model
  hold bytes, so text beyond ASCII is outside it and counted as the error.
\<close>

definition decode_utf8 :: "bytes \<Rightarrow> error + string" where
  "decode_utf8 b =
     (if list_all (\<lambda>c. of_char c < (128 :: nat)) b then Inr b else Inl UnicodeDecodeError)"

subsection \<open>The two chat services\<close>

definition SYSTEM_PROMPT :: string where
  "SYSTEM_PROMPT = ''You are a helpful assistant for the FastForm application. Your task is to assist users in creating and modifying forms based on their requests. You are not supposed to provide any values for any of the bbox fields in the form. If the frontend system provides values for the bbox fields, you must not change them. Analyze the user request and provide the necessary changes to the form structure. Try to cover all possible fields that the page might have.''"

text \<open>\<open>SYSTEM_PROMPT_FILL.format(form_structure=...)\<close>\<close>

definition SYSTEM_PROMPT_FILL :: "string \<Rightarrow> string" where
  "SYSTEM_PROMPT_FILL form_structure =
     ''You are a helpful assistant for the FastForm application. Your task is to assist users in filling out forms based on their requests. Here is the form structure: ''
     @ form_structure @
     '' You must not deviate from the provided structure expect for values filled in by the frontend system. The frontend system might change values of the fields but NEVER change the structure of the form and you must not do the same. Your task is to just fill in the fields based on the conversation with the user.''"

text \<open>
  The \<open>try\<close> block at the head of both \<open>chat\<close> methods: the history of the thread, or,
  when the thread is not found, a system message that is stored and committed.
\<close>

definition thread_or_seed ::
  "string \<Rightarrow> Session \<Rightarrow> string \<Rightarrow> string \<Rightarrow> (error + Message list) \<times> Session" where
  "thread_or_seed prompt s tid uid =
     (case get_thread_history s tid of
        Inr thread \<Rightarrow> (Inr thread, s)
      | Inl (HTTPException code) \<Rightarrow>
          if code = 404 then
            (let (system_message, s) = new_Message (ContentMessage system [text_part prompt]) tid uid s;
                 s = commit (add s system_message)
             in (Inr [system_message], s))
          else (Inl (HTTPException code), s)
      | Inl e \<Rightarrow> (Inl e, s))"

text \<open>The loop over \<open>form_pages\<close>: a page that is not valid is skipped.\<close>

fun image_items :: "(bytes \<Rightarrow> error + bytes) \<Rightarrow> bytes list \<Rightarrow> error + part list" where
  "image_items irregular [] = Inr []"
| "image_items irregular (page # pages) =
     (if is_valid_base64_image irregular page then
        and_then (decode_utf8 page) (\<lambda>text.
        and_then (image_items irregular pages) (\<lambda>items.
          Inr (image_url_part (''data:image/png;base64,'' @ text) # items)))
      else image_items irregular pages)"

definition content_items ::
  "(bytes \<Rightarrow> error + bytes) \<Rightarrow> string \<Rightarrow> bytes list option \<Rightarrow> error + part list" where
  "content_items irregular text form_pages =
     (case form_pages of
        None \<Rightarrow> Inr [text_part text]
      | Some pages \<Rightarrow> and_then (image_items irregular pages) (\<lambda>items. Inr (text_part text # items)))"

text \<open>
  The loop over \<open>_response\<close>: each message is dumped to a new row and added; \<open>None\<close> has
  no \<open>model_dump_json\<close>.
\<close>

fun add_response ::
  "ContentMessage option list \<Rightarrow> string \<Rightarrow> string \<Rightarrow> Session \<Rightarrow> (error + Message list) \<times> Session" where
  "add_response [] tid uid s = (Inr [], s)"
| "add_response (None # msgs) tid uid s = (Inl (AttributeError ''model_dump_json''), s)"
| "add_response (Some msg # msgs) tid uid s =
     (let (new_message, s) = new_Message msg tid uid s;
          s = add s new_message
      in case add_response msgs tid uid s of
           (Inl e, s) \<Rightarrow> (Inl e, s)
         | (Inr created_messages, s) \<Rightarrow> (Inr (new_message # created_messages), s))"

text \<open>
  The part both \<open>chat\<close> methods share from the sorted thread on: the user message is
  stored and committed, then the model is called, then its messages are stored and
  committed.
\<close>

definition chat_from ::
  "(Model \<Rightarrow> ContentMessage list \<Rightarrow> error + ContentMessage option list)
     \<Rightarrow> Model \<Rightarrow> Session \<Rightarrow> string \<Rightarrow> string \<Rightarrow> Message list \<Rightarrow> part list
     \<Rightarrow> (error + Message list) \<times> Session" where
  "chat_from turn lm s tid uid thread items =
     (let msgs = map msg_content (sort_key timestamp thread);
          user_message = ContentMessage user items;
          msgs = msgs @ [user_message];
          (user_message_db, s) = new_Message user_message tid uid s;
          s = commit (add s user_message_db)
      in case turn lm msgs of
           Inl e \<Rightarrow> (Inl e, s)
         | Inr response \<Rightarrow>
             (case add_response response tid uid s of
                (Inl e, s) \<Rightarrow> (Inl e, s)
              | (Inr created_messages, s) \<Rightarrow> (Inr created_messages, commit s)))"

definition FastformBuildMessageService_chat ::
  "(bytes \<Rightarrow> error + bytes) \<Rightarrow> Model \<Rightarrow> Session \<Rightarrow> MessageCreateBase \<Rightarrow> bytes list option
     \<Rightarrow> (error + Message list) \<times> Session" where
  "FastformBuildMessageService_chat irregular lm s message_data form_pages =
     (case thread_or_seed SYSTEM_PROMPT s (thread_id message_data) (user_id message_data) of
        (Inl e, s) \<Rightarrow> (Inl e, s)
      | (Inr thread, s) \<Rightarrow>
          (case content_items irregular (content message_data) form_pages of
             Inl e \<Rightarrow> (Inl e, s)
           | Inr items \<Rightarrow>
               chat_from fastformbuild_chat lm s (thread_id message_data) (user_id message_data)
                 thread items))"

text \<open>
  \<open>annotation = (get_annotation_by_id(load_annotation_id) if load_annotation_id else None)\<close>:
  \<open>None\<close> and \<open>0\<close> are false.
\<close>

definition load_annotation :: "Session \<Rightarrow> FastfillMessageCreate \<Rightarrow> error + string option" where
  "load_annotation s message_data =
     (case load_annotation_id message_data of
        None \<Rightarrow> Inr None
      | Some i \<Rightarrow>
          if i = 0 then Inr None
          else and_then (get_annotation_by_id s i) (\<lambda>structure. Inr (Some structure)))"

text \<open>\<open>annotation.structure if annotation else "No structure provided"\<close>\<close>

definition form_structure :: "string option \<Rightarrow> string" where
  "form_structure annotation =
     (case annotation of Some structure \<Rightarrow> structure | None \<Rightarrow> ''No structure provided'')"

definition FastfillMessageService_chat ::
  "Model \<Rightarrow> Session \<Rightarrow> FastfillMessageCreate \<Rightarrow> (error + Message list) \<times> Session" where
  "FastfillMessageService_chat lm s message_data =
     (case load_annotation s message_data of
        Inl e \<Rightarrow> (Inl e, s)
      | Inr annotation \<Rightarrow>
          (case thread_or_seed (SYSTEM_PROMPT_FILL (form_structure annotation))
                  s (thread_id message_data) (user_id message_data) of
             (Inl e, s) \<Rightarrow> (Inl e, s)
           | (Inr thread, s) \<Rightarrow>
               chat_from fastformfill_chat lm s (thread_id message_data) (user_id message_data)
                 thread [text_part (content message_data)]))"


section \<open>The turn, stage by stage\<close>

text \<open>
  What a turn comes to, written over the answers of the model alone: the conversation
  each stage reads, and the messages returned. Section 4.2 of the specification has the
  same stages: \<open>Classifying\<close>, then \<open>Generating\<close> and \<open>Commenting\<close>, or \<open>Conversing\<close>.
\<close>

definition turn_outcome ::
  "string \<Rightarrow> string \<Rightarrow> string \<Rightarrow> string \<Rightarrow> Model \<Rightarrow> ContentMessage list
     \<Rightarrow> error + ContentMessage option list" where
  "turn_outcome analyze generate comment continue lm msgs =
     (let classifying = msgs @ [ContentMessage assistant [text_part analyze]] in
      case json lm YesNo_schema classifying of
        Inl e \<Rightarrow> Inl e
      | Inr yes_no \<Rightarrow>
          (case getitem yes_no ''selection'' of
             Inl e \<Rightarrow> Inl e
           | Inr selection \<Rightarrow>
               if selection = JStr ''yes'' then
                 (let generating = classifying @
                        [ContentMessage assistant [json_part yes_no],
                         ContentMessage assistant [text_part generate]] in
                  case json lm Form_schema generating of
                    Inl e \<Rightarrow> Inl e
                  | Inr v \<Rightarrow>
                      (let structure_message = ContentMessage assistant [json_part v];
                           commenting = generating @
                             [structure_message, ContentMessage assistant [text_part comment]] in
                       case gen lm commenting of
                         Inl e \<Rightarrow> Inl e
                       | Inr s \<Rightarrow> Inr [Some structure_message, generated_message s]))
               else if selection = JStr ''no'' then
                 (let conversing = classifying @
                        [ContentMessage assistant [json_part yes_no],
                         ContentMessage assistant [text_part continue]] in
                  case gen lm conversing of
                    Inl e \<Rightarrow> Inl e
                  | Inr s \<Rightarrow> Inr [generated_message s])
               else Inr []))"


section \<open>Notions used to state the properties\<close>

text \<open>The two per-turn functions of ai.py, each with its four fixed texts.\<close>

definition turns ::
  "((Model \<Rightarrow> ContentMessage list \<Rightarrow> error + ContentMessage option list)
     \<times> string \<times> string \<times> string \<times> string) list" where
  "turns =
     [(fastformbuild_chat, BUILD_ANALYZE, BUILD_GENERATE, BUILD_COMMENT, BUILD_CONTINUE),
      (fastformfill_chat, FILL_ANALYZE, FILL_GENERATE, FILL_COMMENT, FILL_CONTINUE)]"

text \<open>Validation fails (with entries or with an escaping exception), or succeeds.\<close>

definition rejects :: "validator \<Rightarrow> json \<Rightarrow> bool" where
  "rejects v j = isl (v j)"

definition accepts :: "validator \<Rightarrow> json \<Rightarrow> bool" where
  "accepts v j = (\<not> isl (v j))"

text \<open>Every model class of the schema tree, with the attributes it declares.\<close>

definition schema_models :: "conversions \<Rightarrow> (validator \<times> string list) list" where
  "schema_models cv =
     [(Coordinate cv, [''x'', ''y'']),
      (SelectOption cv, [''label'', ''value'']),
      (Annotation cv, [''title'', ''description'', ''bbox'', ''element_name'']),
      (TextField cv, [''title'', ''description'', ''bbox'', ''element_name'', ''value'']),
      (TextAreaField cv, [''title'', ''description'', ''bbox'', ''element_name'', ''value'', ''max_length'']),
      (NumberField cv, [''title'', ''description'', ''bbox'', ''element_name'', ''value'', ''min_value'', ''max_value'']),
      (DateField cv, [''title'', ''description'', ''bbox'', ''element_name'', ''value'']),
      (CheckboxField cv, [''title'', ''description'', ''bbox'', ''element_name'', ''value'']),
      (RadioField cv, [''title'', ''description'', ''bbox'', ''element_name'', ''options'', ''value'']),
      (SelectField cv, [''title'', ''description'', ''bbox'', ''element_name'', ''options'', ''multi'', ''value'']),
      (FileField cv, [''title'', ''description'', ''bbox'', ''element_name'', ''allowed'', ''max_mb'', ''value'']),
      (ImageField cv, [''title'', ''description'', ''bbox'', ''element_name'', ''allowed'', ''max_mb'', ''value'']),
      (SignatureField cv, [''title'', ''description'', ''bbox'', ''element_name'', ''value'']),
      (EmailField cv, [''title'', ''description'', ''bbox'', ''element_name'', ''value'']),
      (UrlField cv, [''title'', ''description'', ''bbox'', ''element_name'', ''value'']),
      (PhoneField cv, [''title'', ''description'', ''bbox'', ''element_name'', ''value'']),
      (ListField cv, [''title'', ''description'', ''bbox'', ''element_name'', ''items'']),
      (AnnotationGroup cv, [''title'', ''description'', ''annotations'', ''element_name'']),
      (SectionGroup cv, [''title'', ''description'', ''annotations'', ''element_name'', ''collapsible'', ''collapsed'']),
      (RepeatGroup cv, [''title'', ''description'', ''annotations'', ''element_name'', ''min_val'', ''max_val'']),
      (WizardStep cv, [''title'', ''description'', ''annotations'', ''element_name'', ''order'', ''optional'']),
      (TableGroup cv, [''title'', ''description'', ''annotations'', ''element_name'', ''columns'', ''rows'']),
      (Form cv, [''title'', ''description'', ''elements''])]"

text \<open>The fourteen leaf field variants and the four group variants.\<close>

definition field_variants :: "conversions \<Rightarrow> validator list" where
  "field_variants cv =
     [TextField cv, TextAreaField cv, NumberField cv, DateField cv, CheckboxField cv,
      RadioField cv, SelectField cv, FileField cv, ImageField cv, SignatureField cv,
      EmailField cv, UrlField cv, PhoneField cv, ListField cv]"

definition group_variants :: "conversions \<Rightarrow> validator list" where
  "group_variants cv = [SectionGroup cv, RepeatGroup cv, WizardStep cv, TableGroup cv]"

text \<open>The leaf field variants but \<open>SelectField\<close>.\<close>

definition plain_field_variants :: "conversions \<Rightarrow> validator list" where
  "plain_field_variants cv =
     [TextField cv, TextAreaField cv, NumberField cv, DateField cv, CheckboxField cv,
      RadioField cv, FileField cv, ImageField cv, SignatureField cv, EmailField cv,
      UrlField cv, PhoneField cv, ListField cv]"

text \<open>
  Forms as the declarations of fastform.py describe them, told of the JSON document
  alone. A value is of a JSON kind, or null where the declaration has \<open>| None\<close>; a list
  holds items of one description; an object has every declared member, of its
  description, and no key that is not declared.
\<close>

definition is_str :: "json \<Rightarrow> bool" where
  "is_str j = (case j of JStr s \<Rightarrow> True | _ \<Rightarrow> False)"

definition is_int :: "json \<Rightarrow> bool" where
  "is_int j = (case j of JInt i \<Rightarrow> True | _ \<Rightarrow> False)"

definition is_number :: "json \<Rightarrow> bool" where
  "is_number j = (case j of JInt i \<Rightarrow> True | JFloat r \<Rightarrow> True | _ \<Rightarrow> False)"

definition is_bool :: "json \<Rightarrow> bool" where
  "is_bool j = (case j of JBool b \<Rightarrow> True | _ \<Rightarrow> False)"

definition nullable :: "(json \<Rightarrow> bool) \<Rightarrow> json \<Rightarrow> bool" where
  "nullable P j = (case j of JNull \<Rightarrow> True | _ \<Rightarrow> P j)"

definition one_of :: "string list \<Rightarrow> json \<Rightarrow> bool" where
  "one_of members j = (case j of JStr s \<Rightarrow> s \<in> set members | _ \<Rightarrow> False)"

definition list_of :: "(json \<Rightarrow> bool) \<Rightarrow> json \<Rightarrow> bool" where
  "list_of P j = (case j of JList xs \<Rightarrow> list_all P xs | _ \<Rightarrow> False)"

definition pair_of :: "(json \<Rightarrow> bool) \<Rightarrow> json \<Rightarrow> bool" where
  "pair_of P j = (case j of JList xs \<Rightarrow> length xs = 2 \<and> list_all P xs | _ \<Rightarrow> False)"

definition some_of :: "(json \<Rightarrow> bool) \<Rightarrow> json \<Rightarrow> bool" where
  "some_of P j = (case j of JList xs \<Rightarrow> xs \<noteq> [] \<and> list_all P xs | _ \<Rightarrow> False)"

type_synonym members = "(string \<times> (json \<Rightarrow> bool)) list"

definition object_of :: "members \<Rightarrow> json \<Rightarrow> bool" where
  "object_of ms j =
     (case j of
        JObj obj \<Rightarrow>
          list_all (\<lambda>k. k \<in> set (map fst ms)) (map fst obj)
          \<and> list_all (\<lambda>(k, P). case obj_member obj k of Some v \<Rightarrow> P v | None \<Rightarrow> False) ms
      | _ \<Rightarrow> False)"

definition is_Coordinate :: "json \<Rightarrow> bool" where
  "is_Coordinate = object_of [(''x'', nullable is_int), (''y'', nullable is_int)]"

definition Annotation_members :: members where
  "Annotation_members =
     [(''title'', is_str), (''description'', is_str), (''bbox'', pair_of is_Coordinate),
      (''element_name'', one_of AnnotationEnum)]"

definition is_Annotation :: "json \<Rightarrow> bool" where
  "is_Annotation = object_of Annotation_members"

text \<open>
  What a leaf field adds to the members of \<open>Annotation\<close>. A \<open>DateField\<close>, a
  \<open>SignatureField\<close>, an \<open>EmailField\<close>, a \<open>UrlField\<close> and a \<open>PhoneField\<close> declare what a
  \<open>TextField\<close> declares, and an \<open>ImageField\<close> what a \<open>FileField\<close> declares; the items of a
  \<open>ListField\<close> are of the base class. A \<open>SelectField\<close> is not among them.
\<close>

definition TextField_members :: members where
  "TextField_members = [(''value'', nullable is_str)]"

definition TextAreaField_members :: members where
  "TextAreaField_members = [(''value'', nullable is_str), (''max_length'', nullable is_int)]"

definition NumberField_members :: members where
  "NumberField_members =
     [(''value'', nullable is_number), (''min_value'', nullable is_number),
      (''max_value'', nullable is_number)]"

definition CheckboxField_members :: members where
  "CheckboxField_members = [(''value'', nullable is_bool)]"

definition RadioField_members :: members where
  "RadioField_members = [(''options'', list_of is_str), (''value'', nullable is_str)]"

definition FileField_members :: members where
  "FileField_members =
     [(''allowed'', list_of is_str), (''max_mb'', nullable is_int), (''value'', nullable is_str)]"

definition ListField_members :: members where
  "ListField_members = [(''items'', nullable (list_of is_Annotation))]"

definition field_members :: "members list" where
  "field_members =
     [TextField_members, TextAreaField_members, NumberField_members, CheckboxField_members,
      RadioField_members, FileField_members, ListField_members]"

definition is_field :: "json \<Rightarrow> bool" where
  "is_field j = list_ex (\<lambda>ms. object_of (Annotation_members @ ms) j) field_members"

text \<open>
  The members of \<open>AnnotationGroup\<close>, whose annotations are of the base class, and what
  a \<open>SectionGroup\<close>, a \<open>RepeatGroup\<close> and a \<open>WizardStep\<close> add to them.
\<close>

definition AnnotationGroup_members :: members where
  "AnnotationGroup_members =
     [(''title'', is_str), (''description'', is_str), (''annotations'', some_of is_Annotation),
      (''element_name'', one_of AnnotationGroupEnum)]"

definition SectionGroup_members :: members where
  "SectionGroup_members = [(''collapsible'', is_bool), (''collapsed'', is_bool)]"

definition RepeatGroup_members :: members where
  "RepeatGroup_members = [(''min_val'', is_int), (''max_val'', nullable is_int)]"

definition WizardStep_members :: members where
  "WizardStep_members = [(''order'', nullable is_int), (''optional'', is_bool)]"

definition group_members :: "members list" where
  "group_members = [SectionGroup_members, RepeatGroup_members, WizardStep_members]"

definition is_cell :: "json \<Rightarrow> bool" where
  "is_cell j =
     (is_field j \<or> list_ex (\<lambda>ms. object_of (AnnotationGroup_members @ ms) j) group_members)"

text \<open>A table but for the lengths of its rows, and the rows as long as \<open>columns\<close>.\<close>

definition TableGroup_members :: members where
  "TableGroup_members =
     AnnotationGroup_members @
     [(''columns'', list_of is_str), (''rows'', list_of (list_of is_cell))]"

definition rows_match :: "(string \<times> json) list \<Rightarrow> bool" where
  "rows_match obj =
     (case (obj_member obj ''columns'', obj_member obj ''rows'') of
        (Some (JList cs), Some (JList rs)) \<Rightarrow>
          list_all (\<lambda>r. case r of JList cells \<Rightarrow> length cells = length cs | _ \<Rightarrow> False) rs
      | _ \<Rightarrow> False)"

definition is_table :: "json \<Rightarrow> bool" where
  "is_table j =
     (object_of TableGroup_members j \<and> (case j of JObj obj \<Rightarrow> rows_match obj | _ \<Rightarrow> False))"

definition is_Form :: "json \<Rightarrow> bool" where
  "is_Form =
     object_of
       [(''title'', is_str), (''description'', is_str),
        (''elements'', list_of (\<lambda>e. is_cell e \<or> is_table e))]"

text \<open>
  A declared field admits a described member: it has the member's name and its
  validator accepts every value of the member's description.
\<close>

definition admits :: "field \<Rightarrow> string \<times> (json \<Rightarrow> bool) \<Rightarrow> bool" where
  "admits f m \<longleftrightarrow> fst f = fst m \<and> (\<forall>data v. snd m v \<longrightarrow> \<not> isl (snd f data v))"

text \<open>A validation that ends without an exception other than \<open>ValidationError\<close>.\<close>

definition no_escape :: "error + 'a \<Rightarrow> bool" where
  "no_escape r = (case r of Inl (ValidationError es) \<Rightarrow> True | Inl e \<Rightarrow> False | Inr x \<Rightarrow> True)"

text \<open>
  An element is, or holds, a field whose \<open>bbox\<close> list has a length other than 2: the
  element itself, an annotation of a group, an item of a list field, a cell of a table
  row, and so on downwards.
\<close>

inductive has_bad_bbox :: "json \<Rightarrow> bool" where
  bbox: "obj_member obj ''bbox'' = Some (JList bs) \<Longrightarrow> length bs \<noteq> 2 \<Longrightarrow> has_bad_bbox (JObj obj)"
| annotations: "obj_member obj ''annotations'' = Some (JList xs) \<Longrightarrow> x \<in> set xs \<Longrightarrow> has_bad_bbox x
     \<Longrightarrow> has_bad_bbox (JObj obj)"
| items: "obj_member obj ''items'' = Some (JList xs) \<Longrightarrow> x \<in> set xs \<Longrightarrow> has_bad_bbox x
     \<Longrightarrow> has_bad_bbox (JObj obj)"
| rows: "obj_member obj ''rows'' = Some (JList rs) \<Longrightarrow> JList cells \<in> set rs \<Longrightarrow> c \<in> set cells
     \<Longrightarrow> has_bad_bbox c \<Longrightarrow> has_bad_bbox (JObj obj)"

code_pred has_bad_bbox .

text \<open>The object with the value of every member named \<open>k\<close> replaced by \<open>v\<close>.\<close>

definition with_member :: "string \<Rightarrow> json \<Rightarrow> (string \<times> json) list \<Rightarrow> (string \<times> json) list" where
  "with_member k v obj = map (\<lambda>(k', v'). if k' = k then (k', v) else (k', v')) obj"

text \<open>Fields none of which reads the fields validated before it.\<close>

definition plain :: "field list \<Rightarrow> bool" where
  "plain fs \<longleftrightarrow> (\<forall>f \<in> set fs. \<exists>v. snd f = (\<lambda>d. v))"


text \<open>
  The content parts of the user message of a Build turn: the text, then one image part
  for each attached page that is valid.
\<close>

definition image_part :: "bytes \<Rightarrow> part" where
  "image_part page = image_url_part (''data:image/png;base64,'' @ page)"

definition user_items :: "(bytes \<Rightarrow> error + bytes) \<Rightarrow> string \<Rightarrow> bytes list option \<Rightarrow> part list" where
  "user_items irregular text form_pages =
     text_part text #
     map image_part
       (filter (is_valid_base64_image irregular) (case form_pages of None \<Rightarrow> [] | Some pages \<Rightarrow> pages))"

text \<open>
  The rows a turn commits before it calls the model, and the conversation it hands to
  the model: on a thread that is not found the seeded system message comes first.
\<close>

definition system_row :: "string \<Rightarrow> string \<Rightarrow> string \<Rightarrow> nat \<Rightarrow> Message" where
  "system_row prompt tid uid t =
     \<lparr>msg_content = ContentMessage system [text_part prompt], msg_thread_id = tid,
      msg_user_id = uid, timestamp = t\<rparr>"

definition user_row :: "part list \<Rightarrow> string \<Rightarrow> string \<Rightarrow> nat \<Rightarrow> Message" where
  "user_row items tid uid t =
     \<lparr>msg_content = ContentMessage user items, msg_thread_id = tid,
      msg_user_id = uid, timestamp = t\<rparr>"

definition rows_before_model :: "string \<Rightarrow> Session \<Rightarrow> string \<Rightarrow> string \<Rightarrow> part list \<Rightarrow> Message list" where
  "rows_before_model prompt s tid uid items =
     (case get_thread_history s tid of
        Inr thread \<Rightarrow> [user_row items tid uid (clock s)]
      | Inl e \<Rightarrow> [system_row prompt tid uid (clock s), user_row items tid uid (Suc (clock s))])"

definition turn_context :: "string \<Rightarrow> Session \<Rightarrow> string \<Rightarrow> string \<Rightarrow> part list \<Rightarrow> ContentMessage list" where
  "turn_context prompt s tid uid items =
     map msg_content
       (sort_key timestamp
          (case get_thread_history s tid of
             Inr thread \<Rightarrow> thread
           | Inl e \<Rightarrow> [system_row prompt tid uid (clock s)]))
     @ [ContentMessage user items]"

text \<open>A form with every \<open>value\<close> attribute emptied: what is left is its structure.\<close>

fun strip_values :: "json \<Rightarrow> json" where
  "strip_values (JObj kvs) =
     JObj (map (\<lambda>(k, v). (k, if k = ''value'' then JNull else strip_values v)) kvs)"
| "strip_values (JList xs) = JList (map strip_values xs)"
| "strip_values j = j"


section \<open>Example inputs\<close>

text \<open>The conversion table that converts nothing: each scalar type accepts its own JSON kind.\<close>

definition json_only :: conversions where
  "json_only t j = None"

definition null_corner :: json where
  "null_corner = JObj [(''x'', JNull), (''y'', JNull)]"

text \<open>A field "Name" without a value, with the given discriminator and bounding box.\<close>

definition name_field :: "string \<Rightarrow> json list \<Rightarrow> (string \<times> json) list" where
  "name_field e bbox =
     [(''title'', JStr ''Name''), (''description'', JStr ''Full name''), (''bbox'', JList bbox),
      (''element_name'', JStr e), (''value'', JNull)]"

definition contact_form :: "json list \<Rightarrow> (string \<times> json) list" where
  "contact_form es =
     [(''title'', JStr ''Contact''), (''description'', JStr ''A contact form''),
      (''elements'', JList es)]"

text \<open>
  A model that answers every request the same way, whatever the conversation (with a
  classification of any document, or with \<open>yes\<close> or \<open>no\<close>), and one that always fails.
\<close>

definition answering :: "json \<Rightarrow> json \<Rightarrow> string \<Rightarrow> Model" where
  "answering yes_no v s =
     \<lparr>json = (\<lambda>sch msgs. case sch of YesNo_schema \<Rightarrow> Inr yes_no | Form_schema \<Rightarrow> Inr v),
      gen = (\<lambda>msgs. Inr s)\<rparr>"

definition scripted :: "Response \<Rightarrow> json \<Rightarrow> string \<Rightarrow> Model" where
  "scripted r v s = answering (YesNo_json r) v s"

definition unavailable :: Model where
  "unavailable =
     \<lparr>json = (\<lambda>sch msgs. Inl (ModelError ''unavailable'')),
      gen = (\<lambda>msgs. Inl (ModelError ''unavailable''))\<rparr>"


text \<open>A library that takes oddly padded base64 text as its own decoding.\<close>

definition a2b_accept :: "bytes \<Rightarrow> error + bytes" where
  "a2b_accept b = Inr b"

definition corner :: "int \<Rightarrow> int \<Rightarrow> json" where
  "corner x y = JObj [(''x'', JInt x), (''y'', JInt y)]"

definition placed_form :: json where
  "placed_form = JObj (contact_form [JObj (name_field ''TextField'' [corner 5 7, null_corner])])"

definition cell :: json where
  "cell = JObj (name_field ''TextField'' [null_corner, null_corner])"

definition base_annotation :: json where
  "base_annotation =
     JObj [(''title'', JStr ''Item''), (''description'', JStr ''An item''),
           (''bbox'', JList [null_corner, null_corner]), (''element_name'', JStr ''TextField'')]"

definition item_table :: "json list \<Rightarrow> (string \<times> json) list" where
  "item_table rows =
     [(''title'', JStr ''Items''), (''description'', JStr ''A table''),
      (''annotations'', JList [base_annotation]), (''element_name'', JStr ''TableGroup''),
      (''columns'', JList [JStr ''Item'']), (''rows'', JList rows)]"

text \<open>A section holding the given annotations.\<close>

definition details_section :: "json list \<Rightarrow> (string \<times> json) list" where
  "details_section annotations =
     [(''title'', JStr ''Details''), (''description'', JStr ''A section''),
      (''annotations'', JList annotations), (''element_name'', JStr ''SectionGroup''),
      (''collapsible'', JBool True), (''collapsed'', JBool False)]"

text \<open>A list field, and a form with a field, a list field, a section and a table.\<close>

definition list_field :: "json \<Rightarrow> (string \<times> json) list" where
  "list_field items =
     [(''title'', JStr ''Addresses''), (''description'', JStr ''Every address''),
      (''bbox'', JList [null_corner, null_corner]), (''element_name'', JStr ''ListField''),
      (''items'', items)]"

definition sample_form :: json where
  "sample_form =
     JObj (contact_form
       [cell, JObj (list_field (JList [base_annotation])),
        JObj (details_section [base_annotation]), JObj (item_table [JList [cell], JList [cell]])])"

text \<open>A field without values, with the attributes a variant adds to those of the base class.\<close>

definition sample_field :: "(string \<times> json) list \<Rightarrow> (string \<times> json) list" where
  "sample_field extra =
     [(''title'', JStr ''Name''), (''description'', JStr ''Full name''),
      (''bbox'', JList [null_corner, null_corner]), (''element_name'', JStr ''TextField'')] @ extra"

definition colour_select :: "json \<Rightarrow> json \<Rightarrow> (string \<times> json) list" where
  "colour_select multi val =
     [(''title'', JStr ''Colour''), (''description'', JStr ''Pick a colour''),
      (''bbox'', JList [null_corner, null_corner]), (''element_name'', JStr ''SelectField''),
      (''options'', JList [JObj [(''label'', JStr ''Red''), (''value'', JStr ''r'')]]),
      (''multi'', multi), (''value'', val)]"

text \<open>
  A stored structure, as the JSON text kept in the annotation and as the document that
  text denotes, and a form of another structure.
\<close>

definition stored_structure :: string where
  "stored_structure = ''{\"title\": \"Contact\", \"description\": \"A contact form\", \"elements\": [{\"title\": \"Name\", \"description\": \"Full name\", \"bbox\": [{\"x\": null, \"y\": null}, {\"x\": null, \"y\": null}], \"element_name\": \"TextField\", \"value\": null}]}''"

definition stored_form :: json where
  "stored_form = JObj (contact_form [JObj (name_field ''TextField'' [null_corner, null_corner])])"

definition age_form :: json where
  "age_form =
     JObj [(''title'', JStr ''Survey''), (''description'', JStr ''A survey''),
           (''elements'', JList
              [JObj [(''title'', JStr ''Age''), (''description'', JStr ''Age in years''),
                     (''bbox'', JList [null_corner, null_corner]),
                     (''element_name'', JStr ''NumberField''),
                     (''value'', JInt 36), (''min_value'', JInt 0), (''max_value'', JNull)]])]"

definition stored_session :: Session where
  "stored_session = \<lparr>message_table = [], annotation_table = [(1, stored_structure)], pending = [], clock = 0\<rparr>"

definition fill_request :: FastfillMessageCreate where
  "fill_request = \<lparr>content = ''my name is Ada'', thread_id = ''t1'', user_id = ''u1'', load_annotation_id = Some 1\<rparr>"

definition empty_session :: Session where
  "empty_session = \<lparr>message_table = [], annotation_table = [], pending = [], clock = 0\<rparr>"

definition build_request :: MessageCreateBase where
  "build_request = \<lparr>content = ''create a contact form'', thread_id = ''t1'', user_id = ''u1''\<rparr>"

definition plain_fill_request :: FastfillMessageCreate where
  "plain_fill_request =
     \<lparr>content = ''my name is Ada'', thread_id = ''t1'', user_id = ''u1'', load_annotation_id = None\<rparr>"


section \<open>Properties\<close>

subsection \<open>The orchestration\<close>

lemma chat_turn_outcome:
  "chat_turn analyze generate comment continue lm msgs
     = turn_outcome analyze generate comment continue lm msgs"
  unfolding chat_turn_def turn_outcome_def
  by (auto simp: assistant_text_def assistant_json_def assistant_gen_def close_block_def
        get_active_message_def from_end_def generated_message_def Let_def nth_append
      split: sum.splits)

lemma turns_outcome:
  assumes "(turn, analyze, generate, comment, continue) \<in> set turns"
  shows "turn lm msgs = turn_outcome analyze generate comment continue lm msgs"
  using assms
  by (auto simp: turns_def fastformbuild_chat_def fastformfill_chat_def chat_turn_outcome)

text \<open>
  Claim C1, as stated, fails: a result can have another shape. A classification whose
  \<open>selection\<close> is neither \<open>yes\<close> nor \<open>no\<close> leaves \<open>new_messages\<close> as it was
  initialised, and the turn returns the empty list. And when the free-text completion
  is empty, the role block has no content and \<open>get_active_message()\<close> is \<open>None\<close>: with
  a classifier that answers \<open>no\<close> the result is a list of one item that is no message,
  and with one that answers \<open>yes\<close> the structure message followed by \<open>None\<close>.
\<close>

theorem turn_without_commentary:
  "fastformbuild_chat (answering (JObj [(''selection'', JStr ''maybe'')]) age_form ''Hello'') []
     = Inr []
   \<and> fastformbuild_chat (scripted no age_form []) [] = Inr [None]
   \<and> fastformfill_chat (scripted yes age_form []) []
       = Inr [Some (ContentMessage assistant [json_part age_form]), None]"
  by (simp add: fastformbuild_chat_def fastformfill_chat_def chat_turn_outcome turn_outcome_def
        scripted_def answering_def YesNo_json_def generated_message_def)

text \<open>
  Claim C1, amended. For each of the two per-turn functions, once the classifier has
  answered and the answer has a \<open>selection\<close>: on \<open>yes\<close>, when the two later stages answer
  and the commentary is not empty, the result is exactly two messages, the generated
  structure first and the commentary second; on \<open>no\<close>, when the commentary stage answers
  with a text that is not empty, exactly one message, the commentary; and on any other
  selection the result is the empty list the code starts from.
\<close>

theorem turn_result_shape:
  assumes "(turn, analyze, generate, comment, continue) \<in> set turns"
    and "json lm YesNo_schema (msgs @ [ContentMessage assistant [text_part analyze]]) = Inr yes_no"
    and "getitem yes_no ''selection'' = Inr selection"
  shows
    "(selection = JStr ''yes''
        \<and> json lm Form_schema
            (msgs @ [ContentMessage assistant [text_part analyze],
                     ContentMessage assistant [json_part yes_no],
                     ContentMessage assistant [text_part generate]]) = Inr v
        \<and> gen lm
            (msgs @ [ContentMessage assistant [text_part analyze],
                     ContentMessage assistant [json_part yes_no],
                     ContentMessage assistant [text_part generate],
                     ContentMessage assistant [json_part v],
                     ContentMessage assistant [text_part comment]]) = Inr s
        \<and> s \<noteq> []
      \<longrightarrow> turn lm msgs
            = Inr [Some (ContentMessage assistant [json_part v]),
                   Some (ContentMessage assistant [text_part s])])
     \<and> (selection = JStr ''no''
        \<and> gen lm
            (msgs @ [ContentMessage assistant [text_part analyze],
                     ContentMessage assistant [json_part yes_no],
                     ContentMessage assistant [text_part continue]]) = Inr s
        \<and> s \<noteq> []
      \<longrightarrow> turn lm msgs = Inr [Some (ContentMessage assistant [text_part s])])
     \<and> (selection \<noteq> JStr ''yes'' \<and> selection \<noteq> JStr ''no'' \<longrightarrow> turn lm msgs = Inr [])"
  using assms(2,3)
  by (simp add: turns_outcome [OF assms(1)] turn_outcome_def generated_message_def)

theorem turn_result_shape_witness:
  "(fastformbuild_chat, BUILD_ANALYZE, BUILD_GENERATE, BUILD_COMMENT, BUILD_CONTINUE) \<in> set turns
   \<and> (fastformfill_chat, FILL_ANALYZE, FILL_GENERATE, FILL_COMMENT, FILL_CONTINUE) \<in> set turns
   \<and> getitem (YesNo_json yes) ''selection'' = Inr (JStr ''yes'')
   \<and> fastformbuild_chat (scripted yes age_form ''Done'') []
     = Inr [Some (ContentMessage assistant [json_part age_form]),
            Some (ContentMessage assistant [text_part ''Done''])]
   \<and> getitem (YesNo_json no) ''selection'' = Inr (JStr ''no'')
   \<and> fastformfill_chat (scripted no age_form ''Hello'') []
     = Inr [Some (ContentMessage assistant [text_part ''Hello''])]
   \<and> getitem (JObj [(''selection'', JStr ''perhaps'')]) ''selection'' = Inr (JStr ''perhaps'')
   \<and> fastformfill_chat (answering (JObj [(''selection'', JStr ''perhaps'')]) age_form ''Hello'') []
     = Inr []"
proof -
  have b: "(fastformbuild_chat, BUILD_ANALYZE, BUILD_GENERATE, BUILD_COMMENT, BUILD_CONTINUE)
             \<in> set turns"
    and f: "(fastformfill_chat, FILL_ANALYZE, FILL_GENERATE, FILL_COMMENT, FILL_CONTINUE)
             \<in> set turns"
    by (simp_all add: turns_def)
  have y: "getitem (YesNo_json yes) ''selection'' = Inr (JStr ''yes'')"
    and n: "getitem (YesNo_json no) ''selection'' = Inr (JStr ''no'')"
    and m: "getitem (JObj [(''selection'', JStr ''perhaps'')]) ''selection'' = Inr (JStr ''perhaps'')"
    by (simp_all add: YesNo_json_def)
  have 1: "fastformbuild_chat (scripted yes age_form ''Done'') []
     = Inr [Some (ContentMessage assistant [json_part age_form]),
            Some (ContentMessage assistant [text_part ''Done''])]"
    using turn_result_shape [OF b _ y, of "scripted yes age_form ''Done''" "[]" age_form "''Done''"]
    by (simp add: scripted_def answering_def)
  have 2: "fastformfill_chat (scripted no age_form ''Hello'') []
     = Inr [Some (ContentMessage assistant [text_part ''Hello''])]"
    using turn_result_shape [OF f _ n, of "scripted no age_form ''Hello''" "[]" _ "''Hello''"]
    by (simp add: scripted_def answering_def)
  have 3: "fastformfill_chat (answering (JObj [(''selection'', JStr ''perhaps'')]) age_form ''Hello'') []
     = Inr []"
    using turn_result_shape [OF f _ m,
        of "answering (JObj [(''selection'', JStr ''perhaps'')]) age_form ''Hello''" "[]"]
    by (simp add: answering_def)
  from b f y n m 1 2 3 show ?thesis by simp
qed

subsection \<open>The schema model\<close>

text \<open>What makes each combinator of the validation reject, and what its success tells.\<close>

lemma isl_invalid [simp]: "isl (invalid msg)"
  by (simp add: invalid_def)

lemma isl_also_errors [simp]: "isl (also_errors es r)"
  by (cases "(es, r)" rule: also_errors.cases) auto

lemma also_errors_neq_Inr [simp]: "also_errors es r \<noteq> Inr x"
  using isl_also_errors [of es r] by (metis sum.disc(2))

lemma not_isl_conv: "\<not> isl r \<longleftrightarrow> (\<exists>x. r = Inr x)"
  by (cases r) auto

lemma isl_and_then: "isl (and_then r f) \<longleftrightarrow> isl r \<or> (\<exists>x. r = Inr x \<and> isl (f x))"
  by (cases r) auto

lemma union_t_reject: "\<forall>v \<in> set vs. isl (v j) \<Longrightarrow> isl (union_t vs j)"
  by (induction vs) (auto split: sum.splits error.splits)

lemma union_t_accept:
  "union_t vs j = Inr x \<Longrightarrow> \<exists>v \<in> set vs. v j = Inr x"
  by (induction vs) (auto split: sum.splits error.splits)

lemma items_t_reject: "x \<in> set xs \<Longrightarrow> isl (item x) \<Longrightarrow> isl (items_t item i xs)"
  by (induction xs arbitrary: i) (auto simp: isl_and_then split: sum.splits error.splits)

lemma items_t_accept:
  "items_t item i xs = Inr vs \<Longrightarrow> list_all2 (\<lambda>x v. item x = Inr v) xs vs"
proof (induction xs arbitrary: i vs)
  case Nil
  then show ?case by simp
next
  case (Cons x xs)
  show ?case
  proof (cases "item x")
    case (Inl e)
    with Cons.prems have False
      by (cases e) (auto split: sum.splits)
    then show ?thesis ..
  next
    case (Inr v)
    with Cons.prems obtain vs' where "items_t item (Suc i) xs = Inr vs'" "vs = v # vs'"
      by (cases "items_t item (Suc i) xs") auto
    with Cons.IH Inr show ?thesis by auto
  qed
qed

lemma list_t_accept:
  assumes "list_t lo hi item j = Inr y"
  shows "\<exists>xs vs. j = JList xs \<and> y = VList vs \<and> list_all2 (\<lambda>x v. item x = Inr v) xs vs
           \<and> (\<forall>n. lo = Some n \<longrightarrow> n \<le> length xs) \<and> (\<forall>n. hi = Some n \<longrightarrow> length xs \<le> n)"
proof (cases j)
  case (JList xs)
  with assms obtain vs where vs: "items_t item 0 xs = Inr vs"
    by (cases "items_t item 0 xs") (auto simp: list_t_def)
  with assms JList have "y = VList vs \<and> (\<forall>n. lo = Some n \<longrightarrow> n \<le> length xs) \<and> (\<forall>n. hi = Some n \<longrightarrow> length xs \<le> n)"
    by (auto simp: list_t_def invalid_def split: if_splits option.splits)
  with items_t_accept [OF vs] JList show ?thesis by auto
qed (use assms in \<open>auto simp: list_t_def invalid_def\<close>)

lemma list_t_reject_item:
  "x \<in> set xs \<Longrightarrow> isl (item x) \<Longrightarrow> isl (list_t lo hi item (JList xs))"
  using items_t_reject [of x xs item 0] by (auto simp: list_t_def isl_and_then)

lemma list_t_reject_length:
  "length xs \<noteq> n \<Longrightarrow> isl (list_t (Some n) (Some n) item (JList xs))"
  by (cases "items_t item 0 xs") (auto simp: list_t_def)

lemma validate_fields_reject:
  "f \<in> set fs \<Longrightarrow> (\<And>data. isl (validate_field f obj data)) \<Longrightarrow> isl (validate_fields fs obj data)"
proof (induction fs arbitrary: data)
  case Nil
  then show ?case by simp
next
  case (Cons g fs)
  show ?case
  proof (cases "validate_field g obj data")
    case (Inl e)
    then show ?thesis by (cases e) auto
  next
    case (Inr x)
    with Cons.prems(2) [of data] have "f \<noteq> g" by auto
    with Cons Inr show ?thesis by auto
  qed
qed

lemma validate_fields_names:
  "validate_fields fs obj data = Inr data' \<Longrightarrow> map fst data' = map fst data @ map fst fs"
proof (induction fs arbitrary: data)
  case Nil
  then show ?case by simp
next
  case (Cons g fs)
  show ?case
  proof (cases "validate_field g obj data")
    case (Inl e)
    with Cons.prems have False
      by (cases e) (auto split: sum.splits)
    then show ?thesis ..
  next
    case (Inr x)
    with Cons show ?thesis by auto
  qed
qed

lemma validate_fields_append:
  "validate_fields (fs @ gs) obj data = Inr data'
     \<Longrightarrow> \<exists>d. validate_fields fs obj data = Inr d \<and> validate_fields gs obj d = Inr data'"
proof (induction fs arbitrary: data)
  case Nil
  then show ?case by simp
next
  case (Cons g fs)
  show ?case
  proof (cases "validate_field g obj data")
    case (Inl e)
    with Cons.prems have False
      by (cases e) (auto split: sum.splits)
    then show ?thesis ..
  next
    case (Inr x)
    with Cons show ?thesis by auto
  qed
qed

lemma extra_forbidden_nonempty:
  "k \<in> fst ` set obj \<Longrightarrow> k \<notin> fst ` set fs \<Longrightarrow> extra_forbidden fs obj \<noteq> []"
  by (auto simp: extra_forbidden_def filter_empty_conv)

lemma model_t_reject_extra:
  "k \<in> fst ` set obj \<Longrightarrow> k \<notin> fst ` set fs \<Longrightarrow> isl (model_t name fs after (JObj obj))"
  using extra_forbidden_nonempty [of k obj fs]
  by (auto simp: model_t_def split: sum.splits error.splits)

lemma model_t_reject_field:
  "f \<in> set fs \<Longrightarrow> (\<And>data. isl (validate_field f obj data)) \<Longrightarrow> isl (model_t name fs after (JObj obj))"
  using validate_fields_reject [of f fs obj "[]"]
  by (auto simp: model_t_def split: sum.splits error.splits)

lemma model_t_accept:
  "model_t name fs after j = Inr inst \<Longrightarrow>
     \<exists>obj data. j = JObj obj \<and> validate_fields fs obj [] = Inr data \<and> extra_forbidden fs obj = []
        \<and> after (VModel name data) = Inr inst"
  by (cases j) (auto simp: model_t_def invalid_def split: sum.splits error.splits if_splits)

lemma obj_member_key: "obj_member obj k = Some j \<Longrightarrow> k \<in> fst ` set obj"
  by (auto simp: obj_member_def dest!: map_of_SomeD intro: rev_image_eqI)

text \<open>Undeclared attributes, over all classes.\<close>

lemmas class_defs =
  Coordinate_def SelectOption_def Annotation_def TextField_def TextAreaField_def NumberField_def
  DateField_def CheckboxField_def RadioField_def SelectField_def FileField_def ImageField_def
  SignatureField_def EmailField_def UrlField_def PhoneField_def ListField_def AnnotationGroup_def
  SectionGroup_def RepeatGroup_def WizardStep_def TableGroup_def Form_def BaseModel_def

lemmas field_defs =
  Annotation_fields_def SelectField_fields_def FileField_fields_def AnnotationGroup_fields_def
  TableGroup_fields_def Form_fields_def

lemma Annotation_field_names [simp]:
  "map fst (Annotation_fields cv) = [''title'', ''description'', ''bbox'', ''element_name'']"
  by (simp add: Annotation_fields_def Field_def)

lemma AnnotationGroup_field_names [simp]:
  "map fst (AnnotationGroup_fields cv) = [''title'', ''description'', ''annotations'', ''element_name'']"
  by (simp add: AnnotationGroup_fields_def Field_def)

lemma model_rejects_undeclared:
  assumes "(M, declared) \<in> set (schema_models cv)" and "k \<in> fst ` set obj" and "k \<notin> set declared"
  shows "isl (M (JObj obj))"
  using assms unfolding schema_models_def class_defs
  by (auto intro!: model_t_reject_extra
      simp: SelectField_fields_def FileField_fields_def TableGroup_fields_def Form_fields_def
        Annotation_fields_def AnnotationGroup_fields_def Field_def field_validator_def)

text \<open>
  A field with a bad bounding box is rejected by every class that could validate it,
  wherever in an element it sits.
\<close>

lemma model_t_reject_member:
  "Field k v \<in> set fs \<Longrightarrow> obj_member obj k = Some j \<Longrightarrow> isl (v j)
     \<Longrightarrow> isl (model_t name fs after (JObj obj))"
  by (rule model_t_reject_field [of "Field k v"]) (auto simp: validate_field_def Field_def)

lemma model_t_reject_member_fv:
  "field_validator k f v \<in> set fs \<Longrightarrow> obj_member obj k = Some j \<Longrightarrow> isl (v j)
     \<Longrightarrow> isl (model_t name fs after (JObj obj))"
  by (rule model_t_reject_field [of "field_validator k f v"])
     (auto simp: validate_field_def field_validator_def split: sum.splits)

lemma element_types: "cell_types cv @ [TableGroup cv] = field_variants cv @ group_variants cv"
  by (simp add: cell_types_def field_variants_def group_variants_def)

lemma field_variant_rejects_key:
  assumes "M \<in> set (field_variants cv) \<or> M = Annotation cv"
    and "k \<in> fst ` set obj" and "k = ''annotations'' \<or> k = ''rows''"
  shows "isl (M (JObj obj))"
  using assms unfolding field_variants_def class_defs
  by (auto intro!: model_t_reject_extra
      simp: SelectField_fields_def FileField_fields_def Annotation_fields_def Field_def)

lemma no_items_rejects_items:
  assumes "M \<in> set [TextField cv, TextAreaField cv, NumberField cv, DateField cv, CheckboxField cv,
      RadioField cv, SelectField cv, FileField cv, ImageField cv, SignatureField cv,
      EmailField cv, UrlField cv, PhoneField cv, Annotation cv]"
    and "''items'' \<in> fst ` set obj"
  shows "isl (M (JObj obj))"
  using assms unfolding class_defs
  by (auto intro!: model_t_reject_extra
      simp: SelectField_fields_def FileField_fields_def Annotation_fields_def Field_def)

lemma group_variant_rejects_key:
  assumes "M \<in> set (group_variants cv)"
    and "k \<in> fst ` set obj" and "k = ''bbox'' \<or> k = ''items''"
  shows "isl (M (JObj obj))"
  using assms unfolding group_variants_def class_defs
  by (auto intro!: model_t_reject_extra
      simp: TableGroup_fields_def AnnotationGroup_fields_def Field_def field_validator_def)

lemma no_rows_rejects_rows:
  assumes "M \<in> set [SectionGroup cv, RepeatGroup cv, WizardStep cv]"
    and "''rows'' \<in> fst ` set obj"
  shows "isl (M (JObj obj))"
  using assms unfolding class_defs
  by (auto intro!: model_t_reject_extra simp: AnnotationGroup_fields_def Field_def)

lemma field_variant_bad_bbox:
  assumes "M \<in> set (field_variants cv) \<or> M = Annotation cv"
    and "obj_member obj ''bbox'' = Some (JList bs)" and "length bs \<noteq> 2"
  shows "isl (M (JObj obj))"
proof -
  have "isl (model_t name (Annotation_fields cv @ gs) after (JObj obj))" for name gs after
  proof (rule model_t_reject_member)
    show "Field ''bbox'' (list_t (Some 2) (Some 2) (Coordinate cv)) \<in> set (Annotation_fields cv @ gs)"
      by (simp add: Annotation_fields_def)
    show "obj_member obj ''bbox'' = Some (JList bs)" by (rule assms(2))
    show "isl (list_t (Some 2) (Some 2) (Coordinate cv) (JList bs))"
      using assms(3) by (rule list_t_reject_length)
  qed
  from this this [of _ "[]"] assms(1) show ?thesis
    unfolding field_variants_def class_defs SelectField_fields_def FileField_fields_def
    by auto
qed

lemma group_variant_bad_annotation:
  assumes "M \<in> set (group_variants cv)"
    and "obj_member obj ''annotations'' = Some (JList xs)" and "x \<in> set xs" and "isl (Annotation cv x)"
  shows "isl (M (JObj obj))"
proof -
  have "isl (model_t name (AnnotationGroup_fields cv @ gs) after (JObj obj))" for name gs after
  proof (rule model_t_reject_member)
    show "Field ''annotations'' (list_t (Some 1) None (Annotation cv))
            \<in> set (AnnotationGroup_fields cv @ gs)"
      by (simp add: AnnotationGroup_fields_def)
    show "obj_member obj ''annotations'' = Some (JList xs)" by (rule assms(2))
    show "isl (list_t (Some 1) None (Annotation cv) (JList xs))"
      using assms(3,4) by (rule list_t_reject_item)
  qed
  with assms(1) show ?thesis
    unfolding group_variants_def class_defs TableGroup_fields_def
    by auto
qed

lemma Annotation_rejects_bad_bbox:
  assumes "has_bad_bbox e"
  shows "isl (Annotation cv e)"
  using assms
proof cases
  case (bbox obj bs)
  then show ?thesis using field_variant_bad_bbox [of "Annotation cv" cv obj bs] by simp
next
  case (annotations obj xs x)
  then show ?thesis
    using field_variant_rejects_key [of "Annotation cv" cv "''annotations''" obj] obj_member_key
    by auto
next
  case (items obj xs x)
  then show ?thesis
    using no_items_rejects_items [of "Annotation cv" cv obj] obj_member_key
    by auto
next
  case (rows obj rs cells c)
  then show ?thesis
    using field_variant_rejects_key [of "Annotation cv" cv "''rows''" obj] obj_member_key
    by auto
qed

lemma ListField_bad_item:
  assumes "obj_member obj ''items'' = Some (JList xs)" and "x \<in> set xs" and "isl (Annotation cv x)"
  shows "isl (ListField cv (JObj obj))"
  unfolding ListField_def BaseModel_def
proof (rule model_t_reject_member)
  show "Field ''items'' (union_t [list_t None None (Annotation cv), none_t])
          \<in> set (Annotation_fields cv @ [Field ''items'' (union_t [list_t None None (Annotation cv), none_t])])"
    by simp
  show "obj_member obj ''items'' = Some (JList xs)" by (rule assms(1))
  have "isl (list_t None None (Annotation cv) (JList xs))"
    using assms(2,3) by (rule list_t_reject_item)
  then show "isl (union_t [list_t None None (Annotation cv), none_t] (JList xs))"
    by (intro union_t_reject) (auto simp: invalid_def)
qed

lemma TableGroup_bad_cell:
  assumes "obj_member obj ''rows'' = Some (JList rs)" and "JList cells \<in> set rs" and "c \<in> set cells"
    and "\<forall>v \<in> set (cell_types cv). isl (v c)"
  shows "isl (TableGroup cv (JObj obj))"
  unfolding TableGroup_def BaseModel_def
proof (rule model_t_reject_member_fv)
  show "field_validator ''rows'' match_columns
          (list_t None None (list_t None None (union_t (cell_types cv))))
          \<in> set (TableGroup_fields cv)"
    by (simp add: TableGroup_fields_def)
  show "obj_member obj ''rows'' = Some (JList rs)" by (rule assms(1))
  have "isl (union_t (cell_types cv) c)" using assms(4) by (rule union_t_reject)
  with assms(3) have "isl (list_t None None (union_t (cell_types cv)) (JList cells))"
    by (rule list_t_reject_item)
  with assms(2) show "isl (list_t None None (list_t None None (union_t (cell_types cv))) (JList rs))"
    by (rule list_t_reject_item)
qed

lemma element_rejects_bad_bbox:
  assumes "has_bad_bbox e"
  shows "\<forall>v \<in> set (field_variants cv @ group_variants cv). isl (v e)"
  using assms
proof (induction rule: has_bad_bbox.induct)
  case (bbox obj bs)
  then show ?case
    using field_variant_bad_bbox [of _ cv obj bs] group_variant_rejects_key [of _ cv "''bbox''" obj]
      obj_member_key [of obj "''bbox''"]
    by auto
next
  case (annotations obj xs x)
  then show ?case
    using field_variant_rejects_key [of _ cv "''annotations''" obj]
      group_variant_bad_annotation [of _ cv obj xs x] Annotation_rejects_bad_bbox [of x cv]
      obj_member_key [of obj "''annotations''"]
    by auto
next
  case (items obj xs x)
  have "isl (v (JObj obj))" if "v \<in> set (field_variants cv)" for v
  proof (cases "v = ListField cv")
    case True
    with items show ?thesis
      using ListField_bad_item [of obj xs x cv] Annotation_rejects_bad_bbox [of x cv] by simp
  next
    case False
    with that items(1) show ?thesis
      using no_items_rejects_items [of v cv obj] obj_member_key [of obj "''items''"]
      by (auto simp: field_variants_def)
  qed
  with items show ?case
    using group_variant_rejects_key [of _ cv "''items''" obj] obj_member_key [of obj "''items''"]
    by auto
next
  case (rows obj rs cells c)
  have cells: "\<forall>v \<in> set (cell_types cv). isl (v c)"
    using rows.IH by (auto simp: cell_types_def field_variants_def group_variants_def)
  have "isl (v (JObj obj))" if "v \<in> set (group_variants cv)" for v
  proof (cases "v = TableGroup cv")
    case True
    with rows cells show ?thesis using TableGroup_bad_cell [of obj rs cells c cv] by simp
  next
    case False
    with that rows(1) show ?thesis
      using no_rows_rejects_rows [of v cv obj] obj_member_key [of obj "''rows''"]
      by (auto simp: group_variants_def)
  qed
  with rows show ?case
    using field_variant_rejects_key [of _ cv "''rows''" obj] obj_member_key [of obj "''rows''"]
    by auto
qed

lemma Form_rejects_bad_bbox:
  assumes "obj_member form ''elements'' = Some (JList es)" and "e \<in> set es" and "has_bad_bbox e"
  shows "isl (Form cv (JObj form))"
  unfolding Form_def BaseModel_def
proof (rule model_t_reject_member)
  show "Field ''elements'' (list_t None None (union_t (cell_types cv @ [TableGroup cv])))
          \<in> set (Form_fields cv)"
    by (simp add: Form_fields_def)
  show "obj_member form ''elements'' = Some (JList es)" by (rule assms(1))
  have "isl (union_t (cell_types cv @ [TableGroup cv]) e)"
    unfolding element_types using element_rejects_bad_bbox [OF assms(3)] by (rule union_t_reject)
  with assms(2) show "isl (list_t None None (union_t (cell_types cv @ [TableGroup cv])) (JList es))"
    by (rule list_t_reject_item)
qed

text \<open>
  A model whose fields do not read each other accepts an object exactly when each field
  accepts its member and no key is undeclared; so replacing one enum member by another
  keeps acceptance.
\<close>

lemma map_fst_with_member [simp]: "map fst (with_member k v obj) = map fst obj"
  by (induction obj) (auto simp: with_member_def)

lemma obj_member_with_member:
  "obj_member (with_member k v obj) k' =
     (if k' = k then map_option (\<lambda>_. v) (obj_member obj k) else obj_member obj k')"
proof -
  have "map_of (rev (map (\<lambda>(k', v'). if k' = k then (k', v) else (k', v')) xs)) k' =
     (if k' = k then map_option (\<lambda>_. v) (map_of (rev xs) k) else map_of (rev xs) k')" for xs
    by (induction xs) (auto simp: map_add_def split: option.splits)
  then show ?thesis by (simp add: obj_member_def with_member_def)
qed

lemma extra_forbidden_with_member [simp]:
  "extra_forbidden fs (with_member k v obj) = extra_forbidden fs obj"
  by (simp add: extra_forbidden_def)

lemma fst_Field: "fst (Field n v) = n"
  by (simp add: Field_def)

lemma plain_Cons [simp]: "plain (Field n v # fs) = plain fs"
  by (auto simp: plain_def Field_def)

lemma plain_Nil [simp]: "plain []"
  by (simp add: plain_def)

lemma plain_append [simp]: "plain (fs @ gs) = (plain fs \<and> plain gs)"
  by (auto simp: plain_def)

lemma validate_field_plain:
  assumes "plain fs" and "f \<in> set fs"
  shows "validate_field f obj d = validate_field f obj []"
proof -
  from assms obtain v where "snd f = (\<lambda>d. v)" unfolding plain_def by blast
  then show ?thesis by (cases "obj_member obj (fst f)") (simp_all add: validate_field_def)
qed

lemma validate_fields_plain:
  assumes "plain fs"
  shows "isl (validate_fields fs obj data) \<longleftrightarrow> (\<exists>f \<in> set fs. isl (validate_field f obj []))"
  using assms
proof (induction fs arbitrary: data)
  case Nil
  then show ?case by simp
next
  case (Cons g fs)
  from Cons.prems have fs: "plain fs" unfolding plain_def by simp
  have g: "validate_field g obj data = validate_field g obj []"
    using Cons.prems by (rule validate_field_plain) simp
  show ?case
  proof (cases "validate_field g obj []")
    case (Inl e)
    have "isl (validate_fields (g # fs) obj data)"
      using g Inl by (cases e) simp_all
    moreover have "\<exists>f \<in> set (g # fs). isl (validate_field f obj [])"
      using Inl by simp
    ultimately show ?thesis by blast
  next
    case (Inr x)
    have "validate_fields (g # fs) obj data = validate_fields fs obj (data @ [(fst g, x)])"
      using g Inr by simp
    moreover have "(\<exists>f \<in> set (g # fs). isl (validate_field f obj []))
                     \<longleftrightarrow> (\<exists>f \<in> set fs. isl (validate_field f obj []))"
      using Inr by simp
    ultimately show ?thesis using Cons.IH [OF fs] by simp
  qed
qed

lemma BaseModel_plain:
  assumes "plain fs"
  shows "isl (BaseModel name fs (JObj obj))
           \<longleftrightarrow> (\<exists>f \<in> set fs. isl (validate_field f obj [])) \<or> extra_forbidden fs obj \<noteq> []"
proof (cases "validate_fields fs obj []")
  case (Inl e)
  then have "isl (BaseModel name fs (JObj obj))"
    by (cases e) (simp_all add: BaseModel_def model_t_def)
  moreover from Inl have "\<exists>f \<in> set fs. isl (validate_field f obj [])"
    using validate_fields_plain [OF assms, of obj "[]"] by simp
  ultimately show ?thesis by blast
next
  case (Inr data)
  then have "isl (BaseModel name fs (JObj obj)) \<longleftrightarrow> extra_forbidden fs obj \<noteq> []"
    by (simp add: BaseModel_def model_t_def)
  moreover from Inr have "\<not> (\<exists>f \<in> set fs. isl (validate_field f obj []))"
    using validate_fields_plain [OF assms, of obj "[]"] by simp
  ultimately show ?thesis by blast
qed

lemma BaseModel_with_member_accept:
  assumes "plain fs" and "\<forall>f \<in> set fs. fst f = k \<longrightarrow> f = Field k (enum_t E)" and "e \<in> set E"
    and "\<not> isl (BaseModel name fs (JObj obj))"
  shows "\<not> isl (BaseModel name fs (JObj (with_member k (JStr e) obj)))"
proof -
  from assms(4) have ok: "\<forall>f \<in> set fs. \<not> isl (validate_field f obj [])" and ex: "extra_forbidden fs obj = []"
    by (auto simp: BaseModel_plain [OF assms(1)])
  have "\<not> isl (validate_field f (with_member k (JStr e) obj) [])" if "f \<in> set fs" for f
  proof (cases "fst f = k")
    case True
    with assms(2) that have f: "f = Field k (enum_t E)" by blast
    from ok that f obtain j where "obj_member obj k = Some j"
      by (cases "obj_member obj k") (auto simp: validate_field_def Field_def)
    then show ?thesis using assms(3)
      by (simp add: f validate_field_def Field_def obj_member_with_member enum_t_def)
  next
    case False
    with ok that show ?thesis
      by (auto simp: validate_field_def obj_member_with_member)
  qed
  with ex show ?thesis by (simp add: BaseModel_plain [OF assms(1)])
qed

lemma model_t_with_member_reject:
  assumes "Field k (enum_t E) \<in> set fs" and "e \<notin> set E"
  shows "isl (model_t name fs after (JObj (with_member k (JStr e) obj)))"
  using assms(1)
proof (rule model_t_reject_field)
  fix data
  show "isl (validate_field (Field k (enum_t E)) (with_member k (JStr e) obj) data)"
    using assms(2)
    by (cases "obj_member obj k")
       (simp_all add: validate_field_def Field_def obj_member_with_member enum_t_def)
qed

lemma model_validator_check_select:
  "model_validator check_select (VModel n d) = Inl (AttributeError ''get'')"
  by (simp add: model_validator_def check_select_def)

lemma SelectField_rejects: "isl (SelectField cv j)"
proof (cases j)
  case (JObj obj)
  show ?thesis
  proof (cases "validate_fields (SelectField_fields cv) obj []")
    case (Inl e)
    then show ?thesis using JObj by (cases e) (simp_all add: SelectField_def model_t_def)
  next
    case (Inr data)
    then show ?thesis
      using JObj by (simp add: SelectField_def model_t_def model_validator_check_select)
  qed
qed (simp_all add: SelectField_def model_t_def)

lemma element_name_field [simp]:
  "Field ''element_name'' (enum_t AnnotationEnum) \<in> set (Annotation_fields cv)"
  by (simp add: Annotation_fields_def)

lemma plain_Annotation_fields [simp]: "plain (Annotation_fields cv)"
  by (simp add: Annotation_fields_def)

lemma element_name_unique:
  "f \<in> set (Annotation_fields cv) \<Longrightarrow> fst f = ''element_name''
     \<Longrightarrow> f = Field ''element_name'' (enum_t AnnotationEnum)"
  by (auto simp: Annotation_fields_def Field_def)

lemma field_variant_shape:
  assumes "M \<in> set (field_variants cv)"
  shows "M = SelectField cv
       \<or> (\<exists>name gs. M = BaseModel name (Annotation_fields cv @ gs) \<and> plain gs
             \<and> ''element_name'' \<notin> fst ` set gs)"
proof -
  define P where "P N \<longleftrightarrow> N = SelectField cv
       \<or> (\<exists>name gs. N = BaseModel name (Annotation_fields cv @ gs) \<and> plain gs
             \<and> ''element_name'' \<notin> set (map fst gs))" for N
  have I: "P (BaseModel name (Annotation_fields cv @ gs))"
    if "plain gs" and "''element_name'' \<notin> set (map fst gs)" for name gs
    unfolding P_def using that by blast
  have S: "P (SelectField cv)" unfolding P_def by simp
  have "list_all P (field_variants cv)"
    unfolding field_variants_def TextField_def TextAreaField_def NumberField_def DateField_def
      CheckboxField_def RadioField_def FileField_def ImageField_def SignatureField_def
      EmailField_def UrlField_def PhoneField_def ListField_def FileField_fields_def
      list.pred_inject
    by (intro conjI TrueI S I; simp add: fst_Field)
  with assms have "P M" by (simp add: list_all_iff)
  then show ?thesis unfolding P_def by simp
qed

lemma field_variant_element_name:
  assumes "M \<in> set (field_variants cv)"
  shows "(e \<in> set AnnotationEnum \<longrightarrow> \<not> isl (M (JObj obj))
            \<longrightarrow> \<not> isl (M (JObj (with_member ''element_name'' (JStr e) obj))))
       \<and> (e \<notin> set AnnotationEnum \<longrightarrow> isl (M (JObj (with_member ''element_name'' (JStr e) obj))))"
  using field_variant_shape [OF assms]
proof (elim disjE exE conjE)
  assume "M = SelectField cv"
  then show ?thesis by (simp add: SelectField_rejects)
next
  fix name gs
  assume M: "M = BaseModel name (Annotation_fields cv @ gs)" and gs: "plain gs"
    and no: "''element_name'' \<notin> fst ` set gs"
  have acc: "\<not> isl (M (JObj (with_member ''element_name'' (JStr e) obj)))"
    if "e \<in> set AnnotationEnum" and "\<not> isl (M (JObj obj))"
    unfolding M
  proof (rule BaseModel_with_member_accept [where E = AnnotationEnum])
    show "plain (Annotation_fields cv @ gs)" using gs by simp
    show "\<forall>f\<in>set (Annotation_fields cv @ gs).
            fst f = ''element_name'' \<longrightarrow> f = Field ''element_name'' (enum_t AnnotationEnum)"
      using no element_name_unique [of _ cv] by (auto simp: image_iff)
    show "e \<in> set AnnotationEnum" by (rule that(1))
    show "\<not> isl (BaseModel name (Annotation_fields cv @ gs) (JObj obj))"
      using that(2) unfolding M .
  qed
  have rej: "isl (M (JObj (with_member ''element_name'' (JStr e) obj)))" if "e \<notin> set AnnotationEnum"
    unfolding M BaseModel_def
    using _ that by (rule model_t_with_member_reject) simp
  from acc rej show ?thesis by blast
qed

text \<open>The definitions that evaluate a validator on a concrete input.\<close>

lemmas eval_defs =
  class_defs field_defs model_t_def validate_field_def obj_member_def Field_def field_validator_def
  list_t_def enum_t_def AnnotationEnum_def AnnotationGroupEnum_def extra_forbidden_def invalid_def
  lax_def under_def model_validator_def check_select_def match_columns_def cell_types_def
  json_only_def accepts_def rejects_def

text \<open>
  Claim C5. Each model class of the schema tree (\<open>Coordinate\<close>, \<open>SelectOption\<close>, the
  \<open>Annotation\<close> base and its fourteen variants, the \<open>AnnotationGroup\<close> base and its four
  variants, \<open>Form\<close>) rejects an object that carries a key the class does not declare.
\<close>

theorem undeclared_attribute_rejected:
  assumes "(M, declared) \<in> set (schema_models cv)" and "k \<in> fst ` set obj" and "k \<notin> set declared"
  shows "rejects M (JObj obj)"
  unfolding rejects_def using assms by (rule model_rejects_undeclared)

theorem undeclared_attribute_rejected_witness:
  "(Coordinate json_only, [''x'', ''y'']) \<in> set (schema_models json_only)
   \<and> ''z'' \<in> fst ` set [(''x'', JNull), (''y'', JNull), (''z'', JInt 1)]
   \<and> ''z'' \<notin> set [''x'', ''y'']
   \<and> rejects (Coordinate json_only) (JObj [(''x'', JNull), (''y'', JNull), (''z'', JInt 1)])"
  using undeclared_attribute_rejected [of "Coordinate json_only" "[''x'', ''y'']" json_only "''z''"
      "[(''x'', JNull), (''y'', JNull), (''z'', JInt 1)]"]
  by (simp add: schema_models_def)


subsection \<open>Forms that validate\<close>

lemmas member_defs =
  TextField_members_def TextAreaField_members_def NumberField_members_def
  CheckboxField_members_def RadioField_members_def FileField_members_def ListField_members_def
  SectionGroup_members_def RepeatGroup_members_def WizardStep_members_def

text \<open>No validator of the schema but \<open>check_select\<close> lets an exception escape.\<close>

lemma no_escape_Inr [simp]: "no_escape (Inr x)"
  by (simp add: no_escape_def)

lemma no_escape_ValidationError [simp]: "no_escape (Inl (ValidationError es))"
  by (simp add: no_escape_def)

lemma no_escape_invalid [simp]: "no_escape (invalid msg)"
  by (simp add: invalid_def)

lemma no_escape_cases:
  "no_escape r \<longleftrightarrow> (\<exists>x. r = Inr x) \<or> (\<exists>es. r = Inl (ValidationError es))"
  by (auto simp: no_escape_def split: sum.splits error.splits)

lemma no_escape_lax [simp]: "no_escape (lax cv t msg j)"
  by (simp add: lax_def split: option.splits)

lemma no_escape_str_t [simp]: "no_escape (str_t j)"
  by (cases j) simp_all

lemma no_escape_none_t [simp]: "no_escape (none_t j)"
  by (cases j) simp_all

lemma no_escape_int_t [simp]: "no_escape (int_t cv j)"
  by (cases j) simp_all

lemma no_escape_float_t [simp]: "no_escape (float_t cv j)"
  by (cases j) simp_all

lemma no_escape_bool_t [simp]: "no_escape (bool_t cv j)"
  by (cases j) simp_all

lemma no_escape_enum_t [simp]: "no_escape (enum_t E j)"
  by (cases j) (simp_all add: enum_t_def)

lemma no_escape_also_errors: "no_escape r \<Longrightarrow> no_escape (also_errors es r)"
  by (auto simp: no_escape_cases)

lemma no_escape_union_t: "\<forall>v \<in> set vs. no_escape (v j) \<Longrightarrow> no_escape (union_t vs j)"
  by (induction vs) (auto simp: no_escape_cases)

lemma no_escape_items_t: "\<forall>x \<in> set xs. no_escape (item x) \<Longrightarrow> no_escape (items_t item i xs)"
proof (induction xs arbitrary: i)
  case Nil
  then show ?case by simp
next
  case (Cons x xs)
  then have rest: "no_escape (items_t item (Suc i) xs)" and "no_escape (item x)" by simp_all
  then show ?case
    by (auto simp: no_escape_cases)
qed

lemma no_escape_list_t: "(\<And>x. no_escape (item x)) \<Longrightarrow> no_escape (list_t lo hi item j)"
proof (cases j)
  case (JList xs)
  assume "\<And>x. no_escape (item x)"
  then have "no_escape (items_t item 0 xs)" by (simp add: no_escape_items_t)
  then show ?thesis using JList
    by (auto simp: no_escape_def list_t_def invalid_def split: sum.splits error.splits)
qed (simp_all add: list_t_def)

lemma no_escape_validate_fields:
  "list_all (\<lambda>f. \<forall>data j. no_escape (snd f data j)) fs \<Longrightarrow> no_escape (validate_fields fs obj data)"
proof (induction fs arbitrary: data)
  case Nil
  then show ?case by simp
next
  case (Cons f fs)
  then have rest: "\<And>d. no_escape (validate_fields fs obj d)" by simp
  from Cons.prems have "no_escape (validate_field f obj data)"
    by (simp add: validate_field_def split: option.splits)
  then show ?case using rest [of data] rest [of "data @ [(fst f, x)]" for x]
    by (cases "validate_field f obj data"; cases "validate_fields fs obj data")
       (auto simp: no_escape_def split: error.splits)
qed

lemma no_escape_Field: "(\<And>j. no_escape (v j)) \<Longrightarrow> \<forall>data j. no_escape (snd (Field k v) data j)"
  by (simp add: Field_def)

lemma no_escape_BaseModel:
  assumes "list_all (\<lambda>f. \<forall>data j. no_escape (snd f data j)) fs"
  shows "no_escape (BaseModel name fs j)"
proof (cases j)
  case (JObj obj)
  from no_escape_validate_fields [OF assms, of obj "[]"] show ?thesis
    using JObj
    by (auto simp: no_escape_def BaseModel_def model_t_def split: sum.splits error.splits)
qed (simp_all add: BaseModel_def model_t_def)

declare union_t.simps [simp del]

lemma no_escape_Coordinate [simp]: "no_escape (Coordinate cv j)"
  unfolding Coordinate_def
  by (rule no_escape_BaseModel) (simp add: Field_def no_escape_union_t)

lemma no_escape_Annotation_fields:
  "list_all (\<lambda>f. \<forall>data j. no_escape (snd f data j)) (Annotation_fields cv)"
  by (simp add: Annotation_fields_def Field_def no_escape_list_t)

lemma no_escape_Annotation [simp]: "no_escape (Annotation cv j)"
  unfolding Annotation_def by (rule no_escape_BaseModel) (rule no_escape_Annotation_fields)

lemma no_escape_AnnotationGroup_fields:
  "list_all (\<lambda>f. \<forall>data j. no_escape (snd f data j)) (AnnotationGroup_fields cv)"
  by (simp add: AnnotationGroup_fields_def Field_def no_escape_list_t)

lemma no_escape_SelectOption [simp]: "no_escape (SelectOption cv j)"
  unfolding SelectOption_def
  by (rule no_escape_BaseModel) (simp add: Field_def no_escape_union_t)

lemma no_escape_SelectField_fields:
  "list_all (\<lambda>f. \<forall>data j. no_escape (snd f data j)) (SelectField_fields cv)"
  using no_escape_Annotation_fields [of cv]
  by (simp add: SelectField_fields_def Field_def no_escape_list_t no_escape_union_t
       )

text \<open>
  Each leaf variant but \<open>SelectField\<close>, and each group but the table, fails with entries
  only; so does \<open>SelectField\<close> on an object without the key \<open>multi\<close>, which does not
  get as far as \<open>check_select\<close>.
\<close>

lemma no_escape_variants:
  assumes "M \<in> set (plain_field_variants cv) \<or> M \<in> {SectionGroup cv, RepeatGroup cv, WizardStep cv}"
  shows "no_escape (M j)"
proof -
  have F: "no_escape (BaseModel name (Annotation_fields cv @ gs) j)"
    if "list_all (\<lambda>f. \<forall>data j. no_escape (snd f data j)) gs" for name gs
    by (rule no_escape_BaseModel) (simp add: no_escape_Annotation_fields that)
  have G: "no_escape (BaseModel name (AnnotationGroup_fields cv @ gs) j)"
    if "list_all (\<lambda>f. \<forall>data j. no_escape (snd f data j)) gs" for name gs
    by (rule no_escape_BaseModel) (simp add: no_escape_AnnotationGroup_fields that)
  have "list_all (\<lambda>M. no_escape (M j))
          (plain_field_variants cv @ [SectionGroup cv, RepeatGroup cv, WizardStep cv])"
    unfolding plain_field_variants_def TextField_def TextAreaField_def NumberField_def DateField_def
      CheckboxField_def RadioField_def FileField_def ImageField_def SignatureField_def
      EmailField_def UrlField_def PhoneField_def ListField_def FileField_fields_def
      SectionGroup_def RepeatGroup_def WizardStep_def list.pred_inject append.simps
    by (intro conjI TrueI F G;
        simp add: Field_def no_escape_list_t no_escape_union_t)
  with assms show ?thesis by (auto simp: list_all_iff)
qed

lemma no_escape_SelectField:
  assumes "''multi'' \<notin> fst ` set obj"
  shows "no_escape (SelectField cv (JObj obj))"
proof -
  have "obj_member obj ''multi'' = None"
    using assms obj_member_key [of obj "''multi''"] by (cases "obj_member obj ''multi''") auto
  then have "isl (validate_field (Field ''multi'' (bool_t cv)) obj data)" for data
    by (simp add: validate_field_def Field_def)
  then have "isl (validate_fields (SelectField_fields cv) obj [])"
    by (intro validate_fields_reject [of "Field ''multi'' (bool_t cv)"])
       (simp_all add: SelectField_fields_def)
  with no_escape_validate_fields [OF no_escape_SelectField_fields [of cv], of obj "[]"] show ?thesis
    by (auto simp: SelectField_def model_t_def no_escape_def split: sum.splits error.splits)
qed

lemma no_escape_cell_types:
  assumes "''multi'' \<notin> fst ` set obj" and "M \<in> set (cell_types cv)"
  shows "no_escape (M (JObj obj))"
proof -
  from assms(2) have "M = SelectField cv \<or> M \<in> set (plain_field_variants cv)
      \<or> M \<in> {SectionGroup cv, RepeatGroup cv, WizardStep cv}"
    by (auto simp: cell_types_def plain_field_variants_def)
  then show ?thesis using no_escape_SelectField [OF assms(1)] no_escape_variants by blast
qed

text \<open>A value of a described kind is accepted by the validator of the declared type.\<close>

lemma accept_str: "is_str j \<Longrightarrow> \<not> isl (str_t j)"
  by (cases j) (simp_all add: is_str_def)

lemma accept_int: "is_int j \<Longrightarrow> \<not> isl (int_t cv j)"
  by (cases j) (simp_all add: is_int_def)

lemma accept_bool: "is_bool j \<Longrightarrow> \<not> isl (bool_t cv j)"
  by (cases j) (simp_all add: is_bool_def)

lemma accept_enum: "one_of E j \<Longrightarrow> \<not> isl (enum_t E j)"
  by (cases j) (simp_all add: one_of_def enum_t_def)

lemma union_t_first: "\<not> isl (v j) \<Longrightarrow> \<not> isl (union_t (v # vs) j)"
  by (cases "v j") (simp_all add: union_t.simps)

lemma union_t_next: "no_escape (v j) \<Longrightarrow> \<not> isl (union_t vs j) \<Longrightarrow> \<not> isl (union_t (v # vs) j)"
  by (cases "v j"; cases "union_t vs j") (auto simp: no_escape_def union_t.simps split: error.splits)

lemma union_t_member:
  "\<forall>v \<in> set vs. no_escape (v j) \<Longrightarrow> \<exists>v \<in> set vs. \<not> isl (v j) \<Longrightarrow> \<not> isl (union_t vs j)"
proof (induction vs)
  case Nil
  then show ?case by simp
next
  case (Cons v vs)
  show ?case
  proof (cases "isl (v j)")
    case False
    then show ?thesis by (rule union_t_first)
  next
    case True
    with Cons.prems have "\<exists>v \<in> set vs. \<not> isl (v j)" by auto
    with Cons have "\<not> isl (union_t vs j)" by simp
    with Cons.prems show ?thesis by (simp add: union_t_next)
  qed
qed

lemma union_t_append:
  "\<forall>v \<in> set pre. no_escape (v j) \<Longrightarrow> \<not> isl (union_t post j) \<Longrightarrow> \<not> isl (union_t (pre @ post) j)"
  by (induction pre) (simp_all add: union_t_next)

lemma union_t_prefix: "\<not> isl (union_t pre j) \<Longrightarrow> \<not> isl (union_t (pre @ post) j)"
proof (induction pre)
  case Nil
  then show ?case by (simp add: union_t.simps)
next
  case (Cons v pre)
  then show ?case
    by (cases "v j"; cases "union_t pre j"; cases "union_t (pre @ post) j")
       (auto simp: union_t.simps split: error.splits)
qed

lemma accept_nullable:
  "nullable P j \<Longrightarrow> (P j \<Longrightarrow> \<not> isl (union_t vs j)) \<Longrightarrow> \<forall>v \<in> set vs. no_escape (v j)
     \<Longrightarrow> \<not> isl (union_t (vs @ [none_t]) j)"
proof (cases "j = JNull")
  case True
  assume "\<forall>v \<in> set vs. no_escape (v j)"
  then show ?thesis using True by (intro union_t_append) (simp_all add: union_t.simps)
next
  case False
  assume "nullable P j" and "P j \<Longrightarrow> \<not> isl (union_t vs j)"
  with False have "\<not> isl (union_t vs j)" by (cases j) (simp_all add: nullable_def)
  then show ?thesis by (rule union_t_prefix)
qed

lemma accept_nullable_str: "nullable is_str j \<Longrightarrow> \<not> isl (union_t [str_t, none_t] j)"
  using accept_nullable [of is_str j "[str_t]"] by (simp add: accept_str union_t_first)

lemma accept_nullable_int: "nullable is_int j \<Longrightarrow> \<not> isl (union_t [int_t cv, none_t] j)"
  using accept_nullable [of is_int j "[int_t cv]"] by (simp add: accept_int union_t_first)

lemma accept_nullable_bool: "nullable is_bool j \<Longrightarrow> \<not> isl (union_t [bool_t cv, none_t] j)"
  using accept_nullable [of is_bool j "[bool_t cv]"] by (simp add: accept_bool union_t_first)

lemma accept_number: "is_number j \<Longrightarrow> \<not> isl (union_t [int_t cv, float_t cv] j)"
  by (cases j) (simp_all add: is_number_def union_t_first union_t_next)

lemma accept_nullable_number:
  "nullable is_number j \<Longrightarrow> \<not> isl (union_t [int_t cv, float_t cv, none_t] j)"
  using accept_nullable [of is_number j "[int_t cv, float_t cv]"] by (simp add: accept_number)

lemma items_t_all: "\<forall>x \<in> set xs. \<not> isl (item x) \<Longrightarrow> \<not> isl (items_t item i xs)"
proof (induction xs arbitrary: i)
  case Nil
  then show ?case by simp
next
  case (Cons x xs)
  then have "\<not> isl (item x)" and "\<not> isl (items_t item (Suc i) xs)" by simp_all
  then show ?case by (cases "item x"; cases "items_t item (Suc i) xs") simp_all
qed

lemma list_t_all:
  assumes "\<forall>x \<in> set xs. \<not> isl (item x)"
    and "\<And>n. lo = Some n \<Longrightarrow> n \<le> length xs" and "\<And>n. hi = Some n \<Longrightarrow> length xs \<le> n"
  shows "\<not> isl (list_t lo hi item (JList xs))"
  using items_t_all [OF assms(1), of 0] assms(2,3)
  by (cases "items_t item 0 xs") (auto simp: list_t_def split: option.splits)

lemma accept_list_of:
  assumes "list_of P j" and "\<And>x. P x \<Longrightarrow> \<not> isl (item x)"
  shows "\<not> isl (list_t None None item j)"
proof (cases j)
  case (JList xs)
  with assms have "\<forall>x \<in> set xs. \<not> isl (item x)" by (simp add: list_of_def list_all_iff)
  then show ?thesis unfolding JList by (rule list_t_all) simp_all
qed (use assms(1) in \<open>simp_all add: list_of_def\<close>)

lemma accept_pair_of:
  assumes "pair_of P j" and "\<And>x. P x \<Longrightarrow> \<not> isl (item x)"
  shows "\<not> isl (list_t (Some 2) (Some 2) item j)"
proof (cases j)
  case (JList xs)
  with assms have "\<forall>x \<in> set xs. \<not> isl (item x)" and "length xs = 2"
    by (simp_all add: pair_of_def list_all_iff)
  then show ?thesis unfolding JList by (intro list_t_all) simp_all
qed (use assms(1) in \<open>simp_all add: pair_of_def\<close>)

lemma accept_some_of:
  assumes "some_of P j" and "\<And>x. P x \<Longrightarrow> \<not> isl (item x)"
  shows "\<not> isl (list_t (Some 1) None item j)"
proof (cases j)
  case (JList xs)
  with assms have "\<forall>x \<in> set xs. \<not> isl (item x)" and "1 \<le> length xs"
    by (simp_all add: some_of_def list_all_iff Suc_le_eq)
  then show ?thesis unfolding JList by (intro list_t_all) simp_all
qed (use assms(1) in \<open>simp_all add: some_of_def\<close>)

text \<open>An object of a description is accepted by the class whose fields admit its members.\<close>

lemma admits_Field: "(\<And>v. P v \<Longrightarrow> \<not> isl (vld v)) \<Longrightarrow> admits (Field k vld) (k, P)"
  by (simp add: admits_def Field_def)

lemma admits_names: "list_all2 admits fs ms \<Longrightarrow> map fst fs = map fst ms"
  by (induction rule: list_all2_induct) (simp_all add: admits_def)

lemma validate_fields_admits:
  assumes "list_all2 admits fs ms"
    and "list_all (\<lambda>(k, P). case obj_member obj k of Some v \<Rightarrow> P v | None \<Rightarrow> False) ms"
  shows "\<not> isl (validate_fields fs obj data)"
  using assms
proof (induction arbitrary: data rule: list_all2_induct)
  case Nil
  show ?case by simp
next
  case (Cons f fs m ms)
  obtain k P where m: "m = (k, P)" by (cases m)
  from Cons.prems m obtain v where "obj_member obj k = Some v" and "P v"
    by (auto split: option.splits)
  with Cons.hyps(1) m have "\<not> isl (validate_field f obj data)"
    by (simp add: admits_def validate_field_def)
  then obtain x where "validate_field f obj data = Inr x" by (auto simp: not_isl_conv)
  moreover from Cons.prems have "\<not> isl (validate_fields fs obj (data @ [(fst f, x)]))"
    by (intro Cons.IH) simp
  ultimately show ?case by simp
qed

lemma BaseModel_object_of:
  assumes "list_all2 admits fs ms" and "object_of ms j"
  shows "\<not> isl (BaseModel name fs j)"
proof (cases j)
  case (JObj obj)
  with assms(2) have keys: "list_all (\<lambda>k. k \<in> set (map fst ms)) (map fst obj)"
    and vals: "list_all (\<lambda>(k, P). case obj_member obj k of Some v \<Rightarrow> P v | None \<Rightarrow> False) ms"
    by (simp_all add: object_of_def)
  from keys have "extra_forbidden fs obj = []"
    by (simp add: extra_forbidden_def admits_names [OF assms(1)] filter_empty_conv list_all_iff)
  moreover from validate_fields_admits [OF assms(1) vals]
  obtain d where "validate_fields fs obj [] = Inr d" by (auto simp: not_isl_conv)
  ultimately show ?thesis using JObj by (simp add: BaseModel_def model_t_def)
qed (use assms(2) in \<open>simp_all add: object_of_def\<close>)

lemma object_of_no_key:
  assumes "object_of ms j" and "k \<notin> fst ` set ms"
  shows "\<exists>obj. j = JObj obj \<and> k \<notin> fst ` set obj"
  using assms by (cases j) (auto simp: object_of_def list_all_iff)

lemma accept_Coordinate: "is_Coordinate j \<Longrightarrow> \<not> isl (Coordinate cv j)"
  unfolding Coordinate_def is_Coordinate_def
  by (erule BaseModel_object_of [rotated]) (simp add: admits_Field accept_nullable_int)

lemma admits_Annotation: "list_all2 admits (Annotation_fields cv) Annotation_members"
  by (simp add: Annotation_fields_def Annotation_members_def admits_Field accept_str accept_pair_of
        accept_Coordinate accept_enum)

lemma accept_Annotation: "is_Annotation j \<Longrightarrow> \<not> isl (Annotation cv j)"
  unfolding Annotation_def is_Annotation_def
  by (rule BaseModel_object_of [OF admits_Annotation])

lemma admits_AnnotationGroup: "list_all2 admits (AnnotationGroup_fields cv) AnnotationGroup_members"
  by (simp add: AnnotationGroup_fields_def AnnotationGroup_members_def admits_Field accept_str
        accept_some_of [unfolded One_nat_def] accept_Annotation accept_enum)

lemma accept_items:
  "nullable (list_of is_Annotation) j \<Longrightarrow> \<not> isl (union_t [list_t None None (Annotation cv), none_t] j)"
  using accept_nullable [of "list_of is_Annotation" j "[list_t None None (Annotation cv)]"]
  by (simp add: union_t_first accept_list_of accept_Annotation no_escape_list_t)

lemma accept_field_variant:
  assumes "list_all2 admits gs ms" and "object_of (Annotation_members @ ms) j"
  shows "\<not> isl (BaseModel name (Annotation_fields cv @ gs) j)"
  using list_all2_appendI [OF admits_Annotation assms(1)] assms(2) by (rule BaseModel_object_of)

lemma accept_group_variant:
  assumes "list_all2 admits gs ms" and "object_of (AnnotationGroup_members @ ms) j"
  shows "\<not> isl (BaseModel name (AnnotationGroup_fields cv @ gs) j)"
  using list_all2_appendI [OF admits_AnnotationGroup assms(1)] assms(2) by (rule BaseModel_object_of)

lemma accept_TextField:
  "object_of (Annotation_members @ [(''value'', nullable is_str)]) j \<Longrightarrow> \<not> isl (TextField cv j)"
  unfolding TextField_def
  by (erule accept_field_variant [rotated]) (simp add: admits_Field accept_nullable_str)

lemma accept_TextAreaField:
  "object_of (Annotation_members @ [(''value'', nullable is_str), (''max_length'', nullable is_int)]) j
     \<Longrightarrow> \<not> isl (TextAreaField cv j)"
  unfolding TextAreaField_def
  by (erule accept_field_variant [rotated])
     (simp add: admits_Field accept_nullable_str accept_nullable_int)

lemma accept_NumberField:
  "object_of (Annotation_members @ [(''value'', nullable is_number), (''min_value'', nullable is_number),
       (''max_value'', nullable is_number)]) j
     \<Longrightarrow> \<not> isl (NumberField cv j)"
  unfolding NumberField_def
  by (erule accept_field_variant [rotated]) (simp add: admits_Field accept_nullable_number)

lemma accept_CheckboxField:
  "object_of (Annotation_members @ [(''value'', nullable is_bool)]) j \<Longrightarrow> \<not> isl (CheckboxField cv j)"
  unfolding CheckboxField_def
  by (erule accept_field_variant [rotated]) (simp add: admits_Field accept_nullable_bool)

lemma accept_RadioField:
  "object_of (Annotation_members @ [(''options'', list_of is_str), (''value'', nullable is_str)]) j
     \<Longrightarrow> \<not> isl (RadioField cv j)"
  unfolding RadioField_def
  by (erule accept_field_variant [rotated])
     (simp add: admits_Field accept_nullable_str accept_list_of accept_str)

lemma accept_FileField:
  "object_of (Annotation_members @ [(''allowed'', list_of is_str), (''max_mb'', nullable is_int),
       (''value'', nullable is_str)]) j
     \<Longrightarrow> \<not> isl (FileField cv j)"
  unfolding FileField_def FileField_fields_def
  by (erule accept_field_variant [rotated])
     (simp add: admits_Field accept_nullable_str accept_nullable_int accept_list_of accept_str)

lemma accept_ListField:
  "object_of (Annotation_members @ [(''items'', nullable (list_of is_Annotation))]) j
     \<Longrightarrow> \<not> isl (ListField cv j)"
  unfolding ListField_def
  by (erule accept_field_variant [rotated]) (simp add: admits_Field accept_items)

lemma accept_SectionGroup:
  "object_of (AnnotationGroup_members @ [(''collapsible'', is_bool), (''collapsed'', is_bool)]) j
     \<Longrightarrow> \<not> isl (SectionGroup cv j)"
  unfolding SectionGroup_def
  by (erule accept_group_variant [rotated]) (simp add: admits_Field accept_bool)

lemma accept_RepeatGroup:
  "object_of (AnnotationGroup_members @ [(''min_val'', is_int), (''max_val'', nullable is_int)]) j
     \<Longrightarrow> \<not> isl (RepeatGroup cv j)"
  unfolding RepeatGroup_def
  by (erule accept_group_variant [rotated]) (simp add: admits_Field accept_int accept_nullable_int)

lemma accept_WizardStep:
  "object_of (AnnotationGroup_members @ [(''order'', nullable is_int), (''optional'', is_bool)]) j
     \<Longrightarrow> \<not> isl (WizardStep cv j)"
  unfolding WizardStep_def
  by (erule accept_group_variant [rotated]) (simp add: admits_Field accept_bool accept_nullable_int)

lemma is_cell_accepted:
  assumes "is_cell j"
  shows "\<exists>M \<in> set (cell_types cv). \<not> isl (M j)"
proof -
  have "\<not> isl (TextField cv j) \<or> \<not> isl (TextAreaField cv j) \<or> \<not> isl (NumberField cv j)
      \<or> \<not> isl (CheckboxField cv j) \<or> \<not> isl (RadioField cv j) \<or> \<not> isl (FileField cv j)
      \<or> \<not> isl (ListField cv j) \<or> \<not> isl (SectionGroup cv j) \<or> \<not> isl (RepeatGroup cv j)
      \<or> \<not> isl (WizardStep cv j)"
    using assms accept_TextField [of j cv] accept_TextAreaField [of j cv] accept_NumberField [of j cv]
      accept_CheckboxField [of j cv] accept_RadioField [of j cv] accept_FileField [of j cv]
      accept_ListField [of j cv] accept_SectionGroup [of j cv] accept_RepeatGroup [of j cv]
      accept_WizardStep [of j cv]
    by (simp add: is_cell_def is_field_def field_members_def group_members_def member_defs
          list_ex_iff)
       blast
  then show ?thesis unfolding cell_types_def by auto
qed

lemma is_cell_no_multi:
  assumes "is_cell j"
  shows "\<exists>obj. j = JObj obj \<and> ''multi'' \<notin> fst ` set obj"
proof -
  have F: "\<forall>ms \<in> set field_members. ''multi'' \<notin> fst ` set (Annotation_members @ ms)"
    by (simp add: field_members_def member_defs Annotation_members_def)
  have G: "\<forall>ms \<in> set group_members. ''multi'' \<notin> fst ` set (AnnotationGroup_members @ ms)"
    by (simp add: group_members_def member_defs AnnotationGroup_members_def)
  from assms F G obtain ms where "object_of ms j" and "''multi'' \<notin> fst ` set ms"
    unfolding is_cell_def is_field_def list_ex_iff by blast
  then show ?thesis by (rule object_of_no_key)
qed

lemma accept_cell:
  assumes "is_cell j"
  shows "\<not> isl (union_t (cell_types cv) j)"
proof -
  from is_cell_no_multi [OF assms] obtain obj where "j = JObj obj" and "''multi'' \<notin> fst ` set obj"
    by blast
  then have "\<forall>M \<in> set (cell_types cv). no_escape (M j)"
    by (simp add: no_escape_cell_types)
  then show ?thesis using is_cell_accepted [OF assms] by (rule union_t_member)
qed

text \<open>A table: the fields before \<open>rows\<close> are valid, and \<open>match_columns\<close> decides.\<close>

lemma validate_fields_snoc:
  assumes "validate_fields fs obj data = Inr d"
  shows "validate_fields (fs @ [f]) obj data =
     (case validate_field f obj d of
        Inr x \<Rightarrow> Inr (d @ [(fst f, x)])
      | Inl (ValidationError es) \<Rightarrow> Inl (ValidationError (map (under (Key (fst f))) es))
      | Inl e \<Rightarrow> Inl e)"
  using assms
proof (induction fs arbitrary: data)
  case Nil
  then show ?case by (auto split: sum.splits error.splits)
next
  case (Cons g fs)
  show ?case
  proof (cases "validate_field g obj data")
    case (Inl e)
    with Cons.prems have False
      by (cases e) (auto split: sum.splits)
    then show ?thesis ..
  next
    case (Inr x)
    with Cons show ?thesis by simp
  qed
qed

lemma match_rows_lengths:
  assumes "list_all2 (\<lambda>row v. \<exists>cells zs. row = JList cells \<and> v = VList zs \<and> length zs = length cells) rs ys"
  shows "match_rows ys (VList vs) =
     (if list_all (\<lambda>r. case r of JList cells \<Rightarrow> length cells = length vs | _ \<Rightarrow> False) rs
      then Inr () else Inl (ValueError ''Row length must equal number of columns''))"
  using assms by (induction rule: list_all2_induct) auto

lemma match_columns_lengths:
  assumes "list_all2 (\<lambda>row v. \<exists>cells zs. row = JList cells \<and> v = VList zs \<and> length zs = length cells) rs ys"
    and "map_of data ''columns'' = Some (VList vs)"
  shows "match_columns (VList ys) data =
     (if list_all (\<lambda>r. case r of JList cells \<Rightarrow> length cells = length vs | _ \<Rightarrow> False) rs
      then Inr (VList ys) else Inl (ValueError ''Row length must equal number of columns''))"
proof (cases "ys = []")
  case True
  with assms(1) have "rs = []" by simp
  with True assms(2) show ?thesis by (simp add: match_columns_def)
next
  case False
  with assms(2) show ?thesis
    by (simp add: match_columns_def match_rows_lengths [OF assms(1)])
qed

lemma fst_field_validator: "fst (field_validator k f v) = k"
  by (simp add: field_validator_def)

lemma TableGroup_field_names:
  "map fst (TableGroup_fields cv) = map fst TableGroup_members"
  by (simp add: TableGroup_fields_def TableGroup_members_def AnnotationGroup_members_def
        Field_def field_validator_def)

lemma TableGroup_object_of:
  assumes "object_of TableGroup_members (JObj obj)"
  shows "(rows_match obj \<longrightarrow> \<not> isl (TableGroup cv (JObj obj)))
       \<and> (\<not> rows_match obj \<longrightarrow> TableGroup cv (JObj obj)
            = Inl (ValidationError
                [LineError [Key ''rows''] ''Value error, Row length must equal number of columns'']))"
proof -
  let ?cells = "list_t None None (union_t (cell_types cv))"
  let ?colF = "Field ''columns'' (list_t None None str_t)"
  let ?rowF = "field_validator ''rows'' match_columns (list_t None None ?cells)"
  from assms have keys: "list_all (\<lambda>k. k \<in> set (map fst TableGroup_members)) (map fst obj)"
    and vals: "list_all (\<lambda>(k, P). case obj_member obj k of Some v \<Rightarrow> P v | None \<Rightarrow> False)
                 TableGroup_members"
    by (simp_all add: object_of_def)
  from vals obtain c r where c: "obj_member obj ''columns'' = Some c" and c': "list_of is_str c"
    and r: "obj_member obj ''rows'' = Some r" and r': "list_of (list_of is_cell) r"
    and g: "list_all (\<lambda>(k, P). case obj_member obj k of Some v \<Rightarrow> P v | None \<Rightarrow> False)
              AnnotationGroup_members"
    by (auto simp: TableGroup_members_def split: option.splits)
  from c' obtain cs where cs: "c = JList cs" by (cases c) (simp_all add: list_of_def)
  from r' obtain rs where rs: "r = JList rs" by (cases r) (simp_all add: list_of_def)
  have extra: "extra_forbidden (TableGroup_fields cv) obj = []"
    using keys by (simp add: extra_forbidden_def TableGroup_field_names filter_empty_conv list_all_iff)
  have "\<not> isl (validate_fields (AnnotationGroup_fields cv) obj [])"
    by (rule validate_fields_admits [OF admits_AnnotationGroup g])
  then obtain d0 where d0: "validate_fields (AnnotationGroup_fields cv) obj [] = Inr d0"
    by (auto simp: not_isl_conv)
  from validate_fields_names [OF d0] have "''columns'' \<notin> set (map fst d0)" by simp
  then have n0: "map_of d0 ''columns'' = None" by (simp add: map_of_eq_None_iff)
  have "\<not> isl (list_t None None str_t c)" using c' by (rule accept_list_of) (rule accept_str)
  then obtain x where x: "list_t None None str_t c = Inr x" by (auto simp: not_isl_conv)
  from list_t_accept [OF x] cs obtain vs where vs: "x = VList vs" and len: "length vs = length cs"
    by (auto dest: list_all2_lengthD)
  let ?d1 = "d0 @ [(''columns'', VList vs)]"
  have d1: "validate_fields (AnnotationGroup_fields cv @ [?colF]) obj [] = Inr ?d1"
    by (simp add: validate_fields_snoc [OF d0] validate_field_def Field_def c x vs)
  have col: "map_of ?d1 ''columns'' = Some (VList vs)"
    using n0 by (simp add: map_add_def)
  have "\<not> isl (list_t None None ?cells r)"
    using r' by (rule accept_list_of) (erule accept_list_of, erule accept_cell)
  then obtain y where y: "list_t None None ?cells r = Inr y" by (auto simp: not_isl_conv)
  from list_t_accept [OF y] rs obtain ys where ys: "y = VList ys"
    and all: "list_all2 (\<lambda>x v. ?cells x = Inr v) rs ys"
    by auto
  have "\<exists>cells zs. row = JList cells \<and> v = VList zs \<and> length zs = length cells"
    if "?cells row = Inr v" for row v
    using list_t_accept [OF that] by (auto dest: list_all2_lengthD)
  with all have "list_all2 (\<lambda>row v. \<exists>cells zs. row = JList cells \<and> v = VList zs \<and> length zs = length cells) rs ys"
    by (auto elim: list_all2_mono)
  note m = match_columns_lengths [OF this col]
  have rm: "rows_match obj
      = list_all (\<lambda>r. case r of JList cells \<Rightarrow> length cells = length vs | _ \<Rightarrow> False) rs"
    by (simp add: rows_match_def c r cs rs len [symmetric])
  have fs: "TableGroup_fields cv = (AnnotationGroup_fields cv @ [?colF]) @ [?rowF]"
    by (simp add: TableGroup_fields_def)
  have vf: "validate_field ?rowF obj ?d1 =
      (if rows_match obj then Inr (VList ys)
       else invalid ''Value error, Row length must equal number of columns'')"
    by (simp add: validate_field_def field_validator_def r y ys m rm)
  have "validate_fields (TableGroup_fields cv) obj [] =
      (case validate_field ?rowF obj ?d1 of
         Inr x \<Rightarrow> Inr (?d1 @ [(fst ?rowF, x)])
       | Inl (ValidationError es) \<Rightarrow> Inl (ValidationError (map (under (Key (fst ?rowF))) es))
       | Inl e \<Rightarrow> Inl e)"
    unfolding fs by (rule validate_fields_snoc [OF d1])
  then have "validate_fields (TableGroup_fields cv) obj [] =
      (if rows_match obj then Inr (?d1 @ [(''rows'', VList ys)])
       else Inl (ValidationError
              [LineError [Key ''rows''] ''Value error, Row length must equal number of columns'']))"
    unfolding vf by (simp add: invalid_def under_def fst_field_validator)
  with extra show ?thesis
    by (simp add: TableGroup_def BaseModel_def model_t_def)
qed

lemma accept_element:
  assumes "is_cell e \<or> is_table e"
  shows "\<not> isl (union_t (cell_types cv @ [TableGroup cv]) e)"
  using assms
proof
  assume "is_cell e"
  then have "\<not> isl (union_t (cell_types cv) e)" by (rule accept_cell)
  then show ?thesis by (rule union_t_prefix)
next
  assume t: "is_table e"
  then have o: "object_of TableGroup_members e" by (simp add: is_table_def)
  have "''multi'' \<notin> fst ` set TableGroup_members"
    by (simp add: TableGroup_members_def AnnotationGroup_members_def)
  from object_of_no_key [OF o this] obtain obj where e: "e = JObj obj"
    and "''multi'' \<notin> fst ` set obj"
    by blast
  then have "\<forall>M \<in> set (cell_types cv). no_escape (M e)" by (simp add: no_escape_cell_types)
  moreover from t o e have "\<not> isl (TableGroup cv e)"
    using TableGroup_object_of [of obj cv] by (simp add: is_table_def)
  then have "\<not> isl (union_t [TableGroup cv] e)" by (rule union_t_first)
  ultimately show ?thesis by (rule union_t_append)
qed

lemma accept_Form: "is_Form j \<Longrightarrow> \<not> isl (Form cv j)"
  unfolding Form_def is_Form_def Form_fields_def
  by (erule BaseModel_object_of [rotated])
     (simp add: admits_Field accept_str accept_list_of accept_element)

lemmas shape_defs =
  is_str_def is_int_def is_number_def is_bool_def nullable_def one_of_def list_of_def pair_of_def
  some_of_def object_of_def is_Coordinate_def Annotation_members_def is_Annotation_def
  member_defs field_members_def is_field_def AnnotationGroup_members_def group_members_def is_cell_def
  TableGroup_members_def rows_match_def is_table_def is_Form_def

text \<open>Each leaf variant but \<open>SelectField\<close> accepts some object.\<close>

lemma plain_field_variants_accept:
  assumes "M \<in> set (plain_field_variants cv)"
  shows "\<exists>obj. \<not> isl (M (JObj obj))"
proof -
  have A: "\<exists>obj. \<not> isl (BaseModel name (Annotation_fields cv @ gs) (JObj obj))"
    if "list_all2 admits gs ms" and "object_of (Annotation_members @ ms) (JObj (sample_field extra))"
    for name gs ms extra
    using accept_field_variant [OF that] by (rule exI)
  note s = object_of_def Annotation_members_def sample_field_def obj_member_def null_corner_def
    shape_defs AnnotationEnum_def
  have T: "\<exists>obj. \<not> isl (BaseModel name
              (Annotation_fields cv @ [Field ''value'' (union_t [str_t, none_t])]) (JObj obj))" for name
    by (rule A [where ms = "[(''value'', nullable is_str)]" and extra = "[(''value'', JNull)]"],
        simp add: admits_Field accept_nullable_str, simp add: s)
  have F: "\<exists>obj. \<not> isl (BaseModel name (FileField_fields cv) (JObj obj))" for name
    unfolding FileField_fields_def
    by (rule A [where ms = "[(''allowed'', list_of is_str), (''max_mb'', nullable is_int),
                            (''value'', nullable is_str)]"
              and extra = "[(''allowed'', JList []), (''max_mb'', JNull), (''value'', JNull)]"],
        simp add: admits_Field accept_nullable_str accept_nullable_int accept_list_of accept_str, simp add: s)
  have "list_all (\<lambda>M. \<exists>obj. \<not> isl (M (JObj obj))) (plain_field_variants cv)"
    unfolding plain_field_variants_def TextField_def TextAreaField_def NumberField_def DateField_def
      CheckboxField_def RadioField_def FileField_def ImageField_def SignatureField_def
      EmailField_def UrlField_def PhoneField_def ListField_def list.pred_inject
  proof (intro conjI TrueI T F)
    show "\<exists>obj. \<not> isl (BaseModel ''TextAreaField''
            (Annotation_fields cv @
             [Field ''value'' (union_t [str_t, none_t]),
              Field ''max_length'' (union_t [int_t cv, none_t])]) (JObj obj))"
      by (rule A [where ms = "[(''value'', nullable is_str), (''max_length'', nullable is_int)]"
                and extra = "[(''value'', JNull), (''max_length'', JNull)]"],
        simp add: admits_Field accept_nullable_str accept_nullable_int, simp add: s)
    show "\<exists>obj. \<not> isl (BaseModel ''NumberField''
            (Annotation_fields cv @
             [Field ''value'' (union_t [int_t cv, float_t cv, none_t]),
              Field ''min_value'' (union_t [int_t cv, float_t cv, none_t]),
              Field ''max_value'' (union_t [int_t cv, float_t cv, none_t])]) (JObj obj))"
      by (rule A [where ms = "[(''value'', nullable is_number), (''min_value'', nullable is_number),
                              (''max_value'', nullable is_number)]"
                and extra = "[(''value'', JNull), (''min_value'', JNull), (''max_value'', JNull)]"],
        simp add: admits_Field accept_nullable_number, simp add: s)
    show "\<exists>obj. \<not> isl (BaseModel ''CheckboxField''
            (Annotation_fields cv @ [Field ''value'' (union_t [bool_t cv, none_t])]) (JObj obj))"
      by (rule A [where ms = "[(''value'', nullable is_bool)]" and extra = "[(''value'', JNull)]"],
        simp add: admits_Field accept_nullable_bool, simp add: s)
    show "\<exists>obj. \<not> isl (BaseModel ''RadioField''
            (Annotation_fields cv @
             [Field ''options'' (list_t None None str_t),
              Field ''value'' (union_t [str_t, none_t])]) (JObj obj))"
      by (rule A [where ms = "[(''options'', list_of is_str), (''value'', nullable is_str)]"
                and extra = "[(''options'', JList []), (''value'', JNull)]"],
        simp add: admits_Field accept_nullable_str accept_list_of accept_str, simp add: s)
    show "\<exists>obj. \<not> isl (BaseModel ''ListField''
            (Annotation_fields cv @
             [Field ''items'' (union_t [list_t None None (Annotation cv), none_t])]) (JObj obj))"
      by (rule A [where ms = "[(''items'', nullable (list_of is_Annotation))]"
                and extra = "[(''items'', JNull)]"],
        simp add: admits_Field accept_items, simp add: s)
  qed simp
  with assms show ?thesis by (simp add: list_all_iff)
qed

declare union_t.simps [simp]

text \<open>
  Claim C6, as stated, fails in its first half: a form that the data model of the
  specification allows is not always accepted. A text field is a valid annotation,
  and a section holding an annotation of the base class is accepted; the section
  holding the text field is rejected, because \<open>annotations\<close> is declared
  \<open>list[Annotation]\<close> and the base class forbids the attribute \<open>value\<close>. So is the form
  that holds the section.
\<close>

theorem field_in_section_rejected:
  "accepts (TextField json_only) cell
   \<and> accepts (Form json_only) (JObj (contact_form [JObj (details_section [base_annotation])]))
   \<and> SectionGroup json_only (JObj (details_section [cell]))
       = Inl (ValidationError
           [LineError [Key ''annotations'', Idx 0, Key ''value''] ''Extra inputs are not permitted''])
   \<and> rejects (Form json_only) (JObj (contact_form [JObj (details_section [cell])]))"
proof (intro conjI)
  show "accepts (TextField json_only) cell"
    by (simp add: eval_defs cell_def name_field_def null_corner_def)
  show "accepts (Form json_only) (JObj (contact_form [JObj (details_section [base_annotation])]))"
    by (simp add: eval_defs contact_form_def details_section_def base_annotation_def null_corner_def)
  show "SectionGroup json_only (JObj (details_section [cell]))
       = Inl (ValidationError
           [LineError [Key ''annotations'', Idx 0, Key ''value''] ''Extra inputs are not permitted''])"
    by (simp add: eval_defs details_section_def cell_def name_field_def null_corner_def)
  show "rejects (Form json_only) (JObj (contact_form [JObj (details_section [cell])]))"
    by (simp add: eval_defs contact_form_def details_section_def cell_def name_field_def
          null_corner_def)
qed

text \<open>
  Claim C6, amended. A form of the shape the declarations admit validates, whatever
  the conversion table: its elements are leaf fields other than select fields,
  sections, repeat groups, wizard steps and tables; its list fields and its groups hold
  annotations of the base class; the rows of its tables hold such fields and groups
  and are as long as the columns. And a form holding a field whose \<open>bbox\<close> list has a
  length other than 2, as an element or nested in a group, a list field or a table,
  fails validation.
\<close>

theorem form_validation:
  "(is_Form j \<longrightarrow> accepts (Form cv) j)
   \<and> (obj_member form ''elements'' = Some (JList es) \<and> e \<in> set es \<and> has_bad_bbox e
       \<longrightarrow> rejects (Form cv) (JObj form))"
proof (intro conjI impI)
  assume "is_Form j"
  then show "accepts (Form cv) j" unfolding accepts_def by (rule accept_Form)
next
  assume "obj_member form ''elements'' = Some (JList es) \<and> e \<in> set es \<and> has_bad_bbox e"
  then show "rejects (Form cv) (JObj form)"
    unfolding rejects_def using Form_rejects_bad_bbox [of form es e cv] by blast
qed

theorem form_validation_witness:
  "is_Form sample_form
   \<and> accepts (Form json_only) sample_form
   \<and> obj_member (contact_form [JObj (name_field ''TextField'' [null_corner, null_corner, null_corner])])
       ''elements''
       = Some (JList [JObj (name_field ''TextField'' [null_corner, null_corner, null_corner])])
   \<and> JObj (name_field ''TextField'' [null_corner, null_corner, null_corner])
       \<in> set [JObj (name_field ''TextField'' [null_corner, null_corner, null_corner])]
   \<and> has_bad_bbox (JObj (name_field ''TextField'' [null_corner, null_corner, null_corner]))
   \<and> rejects (Form json_only)
        (JObj (contact_form [JObj (name_field ''TextField'' [null_corner, null_corner, null_corner])]))"
proof -
  let ?e = "JObj (name_field ''TextField'' [null_corner, null_corner, null_corner])"
  have 0: "is_Form sample_form"
    by (simp add: shape_defs sample_form_def contact_form_def details_section_def item_table_def
          list_field_def base_annotation_def cell_def name_field_def null_corner_def obj_member_def
          AnnotationEnum_def AnnotationGroupEnum_def)
  have 1: "obj_member (contact_form [?e]) ''elements'' = Some (JList [?e])"
    by (simp add: contact_form_def obj_member_def)
  have 2: "?e \<in> set [?e]" by simp
  have 3: "has_bad_bbox ?e"
    by (rule has_bad_bbox.bbox [of _ "[null_corner, null_corner, null_corner]"])
       (simp_all add: name_field_def obj_member_def)
  from 0 1 2 3
    form_validation [of sample_form json_only "contact_form [?e]" "[?e]" ?e]
  show ?thesis by blast
qed

text \<open>
  Claim C10. For the select field the code does not do what the claim says: a select
  field whose every attribute is valid, carrying the discriminator of another variant,
  is not accepted. Its fields pass, the discriminator among them, and the
  after-validator then raises \<open>AttributeError\<close>, as it does with the select field's own
  discriminator.
\<close>

theorem select_discriminator_not_accepted:
  "''TextField'' \<in> set AnnotationEnum
   \<and> SelectField json_only
        (JObj (with_member ''element_name'' (JStr ''TextField'') (colour_select (JBool False) JNull)))
       = Inl (AttributeError ''get'')"
  by (simp add: eval_defs with_member_def colour_select_def null_corner_def)

text \<open>
  The thirteen other leaf variants do what the claim says. None of them compares
  \<open>element_name\<close> with the class that validates the object: an object one of them
  accepts is still accepted by it with the discriminator of any other member of
  \<open>AnnotationEnum\<close>, and is rejected with a discriminator that is no member; and each of
  the thirteen accepts some object.
\<close>

lemma element_name_not_cross_checked:
  assumes "M \<in> set (plain_field_variants cv)"
  shows "(e \<in> set AnnotationEnum \<longrightarrow> accepts M (JObj obj)
            \<longrightarrow> accepts M (JObj (with_member ''element_name'' (JStr e) obj)))
       \<and> (e \<notin> set AnnotationEnum \<longrightarrow> rejects M (JObj (with_member ''element_name'' (JStr e) obj)))
       \<and> (\<exists>obj. accepts M (JObj obj))"
proof -
  from assms have "M \<in> set (field_variants cv)"
    by (auto simp: plain_field_variants_def field_variants_def)
  from field_variant_element_name [OF this, of e obj] plain_field_variants_accept [OF assms]
  show ?thesis unfolding accepts_def rejects_def by blast
qed

lemma element_name_not_cross_checked_example:
  "TextField json_only \<in> set (plain_field_variants json_only)
   \<and> ''NumberField'' \<in> set AnnotationEnum
   \<and> accepts (TextField json_only) (JObj (name_field ''TextField'' [null_corner, null_corner]))
   \<and> accepts (TextField json_only)
        (JObj (with_member ''element_name'' (JStr ''NumberField'')
           (name_field ''TextField'' [null_corner, null_corner])))
   \<and> ''Text'' \<notin> set AnnotationEnum
   \<and> rejects (TextField json_only)
        (JObj (with_member ''element_name'' (JStr ''Text'')
           (name_field ''TextField'' [null_corner, null_corner])))"
proof -
  have 1: "TextField json_only \<in> set (plain_field_variants json_only)"
    by (simp add: plain_field_variants_def)
  have 2: "''NumberField'' \<in> set AnnotationEnum" and 3: "''Text'' \<notin> set AnnotationEnum"
    by (simp_all add: AnnotationEnum_def)
  have 4: "accepts (TextField json_only) (JObj (name_field ''TextField'' [null_corner, null_corner]))"
    by (simp add: eval_defs name_field_def null_corner_def)
  from 1 2 3 4
    element_name_not_cross_checked [OF 1, of "''NumberField''" "name_field ''TextField'' [null_corner, null_corner]"]
    element_name_not_cross_checked [OF 1, of "''Text''" "name_field ''TextField'' [null_corner, null_corner]"]
  show ?thesis by blast
qed

subsection \<open>Table rows\<close>

lemma list_all2_pick: "list_all2 P xs ys \<Longrightarrow> x \<in> set xs \<Longrightarrow> \<exists>y \<in> set ys. P x y"
  by (induction rule: list_all2_induct) auto

lemma match_rows_ok:
  "match_rows rows (VList vs) = Inr u \<Longrightarrow> row \<in> set rows \<Longrightarrow> len row = Inr (length vs)"
proof (induction rows)
  case Nil
  then show ?case by simp
next
  case (Cons r rows)
  from Cons.prems(1) obtain n where n: "len r = Inr n"
    by (cases "len r") auto
  with Cons.prems(1) have eq: "n = length vs" and rest: "match_rows rows (VList vs) = Inr u"
    by (auto split: if_splits)
  with Cons n show ?case by auto
qed

lemma match_columns_ok:
  assumes "match_columns (VList xs) data = Inr r" and "map_of data ''columns'' = Some (VList vs)"
    and "row \<in> set xs"
  shows "len row = Inr (length vs)"
proof -
  from assms(3) have "xs \<noteq> []" by auto
  with assms(1,2) obtain u where "match_rows xs (VList vs) = Inr u"
    by (cases "match_rows xs (VList vs)") (auto simp: match_columns_def)
  then show ?thesis using assms(3) by (rule match_rows_ok)
qed

lemma field_validator_accept:
  assumes "validate_field (field_validator k f v) obj data = Inr r"
  shows "\<exists>j x. obj_member obj k = Some j \<and> v j = Inr x \<and> f x data = Inr r"
proof -
  from assms obtain j where j: "obj_member obj k = Some j"
    by (cases "obj_member obj k") (auto simp: validate_field_def field_validator_def invalid_def)
  with assms obtain x where x: "v j = Inr x"
    by (cases "v j") (auto simp: validate_field_def field_validator_def)
  with assms j have "f x data = Inr r"
    by (cases "f x data")
       (auto simp: validate_field_def field_validator_def invalid_def split: error.splits)
  with j x show ?thesis by blast
qed

lemma Field_accept:
  assumes "validate_field (Field k v) obj data = Inr r"
  shows "\<exists>j. obj_member obj k = Some j \<and> v j = Inr r"
  using assms
  by (cases "obj_member obj k") (auto simp: validate_field_def Field_def invalid_def)

lemma validate_fields_two:
  assumes "validate_fields [f, g] obj d = Inr data"
  shows "\<exists>x y. validate_field f obj d = Inr x \<and> validate_field g obj (d @ [(fst f, x)]) = Inr y"
proof -
  from assms obtain x where x: "validate_field f obj d = Inr x"
    by (cases "validate_field f obj d") (auto split: error.splits)
  with assms obtain y where "validate_field g obj (d @ [(fst f, x)]) = Inr y"
    by (cases "validate_field g obj (d @ [(fst f, x)])") (auto split: error.splits)
  with x show ?thesis by blast
qed

lemma TableGroup_accept:
  assumes "\<not> isl (TableGroup cv (JObj obj))"
  shows "\<exists>cs rs. obj_member obj ''columns'' = Some (JList cs)
           \<and> obj_member obj ''rows'' = Some (JList rs)
           \<and> (\<forall>r \<in> set rs. \<exists>cells. r = JList cells \<and> length cells = length cs)"
proof -
  let ?U = "union_t (cell_types cv)"
  let ?inner = "list_t None None (list_t None None ?U)"
  let ?C = "Field ''columns'' (list_t None None str_t)"
  let ?R = "field_validator ''rows'' match_columns ?inner"
  from assms obtain inst where "TableGroup cv (JObj obj) = Inr inst"
    by (auto simp: not_isl_conv)
  then obtain data where "validate_fields (AnnotationGroup_fields cv @ [?C, ?R]) obj [] = Inr data"
    unfolding TableGroup_def BaseModel_def TableGroup_fields_def
    by (auto dest!: model_t_accept)
  from validate_fields_append [OF this]
  obtain d where d: "validate_fields (AnnotationGroup_fields cv) obj [] = Inr d"
    and rest: "validate_fields [?C, ?R] obj d = Inr data"
    by blast
  from validate_fields_names [OF d]
  have names: "map fst d = [''title'', ''description'', ''annotations'', ''element_name'']"
    by simp
  from validate_fields_two [OF rest]
  obtain c y where c: "validate_field ?C obj d = Inr c"
    and y: "validate_field ?R obj (d @ [(''columns'', c)]) = Inr y"
    by (auto simp: fst_Field)
  from Field_accept [OF c] obtain jc where jc: "obj_member obj ''columns'' = Some jc"
    and cval: "list_t None None str_t jc = Inr c"
    by blast
  from list_t_accept [OF cval] obtain cs vs where cs: "jc = JList cs" "c = VList vs"
    and csvs: "list_all2 (\<lambda>x v. str_t x = Inr v) cs vs"
    by blast
  from field_validator_accept [OF y] obtain jr x where jr: "obj_member obj ''rows'' = Some jr"
    and xval: "?inner jr = Inr x" and mc: "match_columns x (d @ [(''columns'', c)]) = Inr y"
    by blast
  from list_t_accept [OF xval] obtain rs xs where rs: "jr = JList rs" "x = VList xs"
    and rsxs: "list_all2 (\<lambda>r v. list_t None None ?U r = Inr v) rs xs"
    by blast
  from names have "map_of d ''columns'' = None"
    by (simp add: map_of_eq_None_iff flip: set_map)
  then have look: "map_of (d @ [(''columns'', c)]) ''columns'' = Some (VList vs)"
    by (simp add: map_add_def cs(2))
  have "\<exists>cells. r = JList cells \<and> length cells = length cs" if "r \<in> set rs" for r
  proof -
    from list_all2_pick [OF rsxs that]
    obtain v where v: "v \<in> set xs" and rv: "list_t None None ?U r = Inr v"
      by blast
    from list_t_accept [OF rv] obtain cells vcells where cells: "r = JList cells" "v = VList vcells"
      and cv: "list_all2 (\<lambda>x w. ?U x = Inr w) cells vcells"
      by blast
    from match_columns_ok [OF mc [unfolded rs(2)] look v] cells(2)
    have "length vcells = length vs" by simp
    with cv csvs cells(1) show ?thesis
      by (auto dest!: list_all2_lengthD)
  qed
  with jc jr cs(1) rs(1) show ?thesis by blast
qed

text \<open>
  Claim C4, as stated, fails: the failure does not identify the offending row. In the
  first table below row 0 has the wrong length, in the second row 1; validation fails
  with the same single entry, located at the field \<open>rows\<close> and carrying the fixed message.
\<close>

theorem row_error_names_no_row:
  "TableGroup json_only (JObj (item_table [JList [], JList [cell]]))
     = Inl (ValidationError
         [LineError [Key ''rows''] ''Value error, Row length must equal number of columns''])
   \<and> TableGroup json_only (JObj (item_table [JList [cell], JList []]))
     = Inl (ValidationError
         [LineError [Key ''rows''] ''Value error, Row length must equal number of columns''])"
  by (simp add: eval_defs item_table_def base_annotation_def cell_def name_field_def null_corner_def)

text \<open>
  Claim C4, amended. Validation of a \<open>TableGroup\<close> succeeds only if \<open>columns\<close> and \<open>rows\<close>
  are lists and every row is a list as long as \<open>columns\<close>; a row of another length makes
  validation fail; and when the table is otherwise of the shape the declaration admits,
  the failure is the one entry shown above, at \<open>rows\<close>, with the fixed message and without
  the index of the row.
\<close>

theorem table_rows_match_columns:
  "(accepts (TableGroup cv) (JObj obj) \<longrightarrow>
      (\<exists>cs rs. obj_member obj ''columns'' = Some (JList cs)
         \<and> obj_member obj ''rows'' = Some (JList rs)
         \<and> (\<forall>r \<in> set rs. \<exists>cells. r = JList cells \<and> length cells = length cs)))
   \<and> (obj_member obj ''columns'' = Some (JList cs) \<and> obj_member obj ''rows'' = Some (JList rs)
        \<and> JList cells \<in> set rs \<and> length cells \<noteq> length cs
      \<longrightarrow> rejects (TableGroup cv) (JObj obj))
   \<and> (object_of TableGroup_members (JObj obj) \<and> \<not> rows_match obj
      \<longrightarrow> TableGroup cv (JObj obj)
            = Inl (ValidationError
                [LineError [Key ''rows''] ''Value error, Row length must equal number of columns'']))"
proof (intro conjI impI)
  assume "accepts (TableGroup cv) (JObj obj)"
  then show "\<exists>cs rs. obj_member obj ''columns'' = Some (JList cs)
         \<and> obj_member obj ''rows'' = Some (JList rs)
         \<and> (\<forall>r \<in> set rs. \<exists>cells. r = JList cells \<and> length cells = length cs)"
    unfolding accepts_def by (rule TableGroup_accept)
next
  assume a: "obj_member obj ''columns'' = Some (JList cs) \<and> obj_member obj ''rows'' = Some (JList rs)
        \<and> JList cells \<in> set rs \<and> length cells \<noteq> length cs"
  show "rejects (TableGroup cv) (JObj obj)"
    unfolding rejects_def
  proof (rule ccontr)
    assume "\<not> isl (TableGroup cv (JObj obj))"
    from TableGroup_accept [OF this] a show False by auto
  qed
next
  assume "object_of TableGroup_members (JObj obj) \<and> \<not> rows_match obj"
  then show "TableGroup cv (JObj obj)
      = Inl (ValidationError
          [LineError [Key ''rows''] ''Value error, Row length must equal number of columns''])"
    using TableGroup_object_of [of obj cv] by blast
qed

theorem table_rows_match_columns_witness:
  "accepts (TableGroup json_only) (JObj (item_table [JList [cell], JList [cell]]))
   \<and> (\<exists>cs rs. obj_member (item_table [JList [cell], JList [cell]]) ''columns'' = Some (JList cs)
         \<and> obj_member (item_table [JList [cell], JList [cell]]) ''rows'' = Some (JList rs)
         \<and> (\<forall>r \<in> set rs. \<exists>cells. r = JList cells \<and> length cells = length cs))
   \<and> obj_member (item_table [JList [cell], JList [cell, cell]]) ''columns'' = Some (JList [JStr ''Item''])
   \<and> obj_member (item_table [JList [cell], JList [cell, cell]]) ''rows''
        = Some (JList [JList [cell], JList [cell, cell]])
   \<and> JList [cell, cell] \<in> set [JList [cell], JList [cell, cell]]
   \<and> length [cell, cell] \<noteq> length [JStr ''Item'']
   \<and> rejects (TableGroup json_only) (JObj (item_table [JList [cell], JList [cell, cell]]))
   \<and> object_of TableGroup_members (JObj (item_table [JList [cell], JList [cell, cell]]))
   \<and> \<not> rows_match (item_table [JList [cell], JList [cell, cell]])
   \<and> TableGroup json_only (JObj (item_table [JList [cell], JList [cell, cell]]))
       = Inl (ValidationError
           [LineError [Key ''rows''] ''Value error, Row length must equal number of columns''])"
proof -
  have 1: "accepts (TableGroup json_only) (JObj (item_table [JList [cell], JList [cell]]))"
    by (simp add: eval_defs item_table_def base_annotation_def cell_def name_field_def null_corner_def)
  have 2: "obj_member (item_table [JList [cell], JList [cell, cell]]) ''columns'' = Some (JList [JStr ''Item''])
     \<and> obj_member (item_table [JList [cell], JList [cell, cell]]) ''rows''
        = Some (JList [JList [cell], JList [cell, cell]])
     \<and> JList [cell, cell] \<in> set [JList [cell], JList [cell, cell]]
     \<and> length [cell, cell] \<noteq> length [JStr ''Item'']"
    by (simp add: item_table_def obj_member_def)
  have 3: "object_of TableGroup_members (JObj (item_table [JList [cell], JList [cell, cell]]))"
    by (simp add: shape_defs item_table_def base_annotation_def cell_def name_field_def
          null_corner_def obj_member_def AnnotationEnum_def AnnotationGroupEnum_def)
  have 4: "\<not> rows_match (item_table [JList [cell], JList [cell, cell]])"
    by (simp add: rows_match_def item_table_def obj_member_def)
  from 1 2 3 4
    table_rows_match_columns [of json_only "item_table [JList [cell], JList [cell]]"]
    table_rows_match_columns [of json_only "item_table [JList [cell], JList [cell, cell]]"
      "[JStr ''Item'']" "[JList [cell], JList [cell, cell]]" "[cell, cell]"]
  show ?thesis by blast
qed

subsection \<open>The select field\<close>

text \<open>
  On a dictionary of field values \<open>check_select\<close> does what it is written for; on a
  model instance its first \<open>.get\<close> raises.
\<close>

lemma check_select_on_dict:
  "check_select (VDict [(''multi'', VBool multi), (''value'', val)]) =
     (if multi \<and> val \<noteq> VNone \<and> \<not> isinstance_list val
        then Inl (ValueError ''When multi=True, value must be a list'')
      else if \<not> multi \<and> isinstance_list val
        then Inl (ValueError ''When multi=False, value must be a single item'')
      else Inr (VDict [(''multi'', VBool multi), (''value'', val)]))"
  by (simp add: check_select_def)

lemma check_select_on_instance:
  "check_select (VModel name data) = Inl (AttributeError ''get'')"
  by (simp add: check_select_def)

text \<open>
  Claim C2: validation of a \<open>SelectField\<close> fails with a validation error when \<open>multi\<close>
  and the shape of \<open>value\<close> disagree, and accepts the cardinality otherwise. The code
  does not do so. The validator runs after the fields, on the \<open>SelectField\<close> instance,
  so every input whose fields are valid ends in \<open>AttributeError\<close>: the input the claim
  says is accepted (\<open>multi\<close> false, no value) and the two mismatches, which are thus
  not reported as validation errors. \<open>SelectField_rejects\<close> above shows that no input
  at all is accepted; \<open>check_select_on_dict\<close> that the checks are right on a dictionary.
\<close>

theorem select_field_attribute_error:
  "SelectField json_only (JObj (colour_select (JBool False) JNull)) = Inl (AttributeError ''get'')
   \<and> SelectField json_only
        (JObj (colour_select (JBool True) (JObj [(''label'', JStr ''Red''), (''value'', JStr ''r'')])))
       = Inl (AttributeError ''get'')
   \<and> SelectField json_only
        (JObj (colour_select (JBool False) (JList [JObj [(''label'', JStr ''Red''), (''value'', JStr ''r'')]])))
       = Inl (AttributeError ''get'')"
  by (simp add: eval_defs colour_select_def null_corner_def)

subsection \<open>Coordinates\<close>

text \<open>
  Claim C7, as stated, fails: a model that answers the \<open>Form\<close> request with a form whose
  first corner is \<open>(5, 7)\<close> has its document returned by the Build turn as the structure
  message; the document is a valid \<open>Form\<close>, the corner a valid \<open>Coordinate\<close>.
\<close>

theorem build_emits_placed_coordinate:
  "fastformbuild_chat (scripted yes placed_form ''Done'') []
     = Inr [Some (ContentMessage assistant [json_part placed_form]),
            Some (ContentMessage assistant [text_part ''Done''])]
   \<and> accepts (Form json_only) placed_form
   \<and> Coordinate json_only (corner 5 7) = Inr (VModel ''Coordinate'' [(''x'', VInt 5), (''y'', VInt 7)])"
proof (intro conjI)
  show "fastformbuild_chat (scripted yes placed_form ''Done'') []
     = Inr [Some (ContentMessage assistant [json_part placed_form]),
            Some (ContentMessage assistant [text_part ''Done''])]"
    by (simp add: fastformbuild_chat_def chat_turn_outcome turn_outcome_def scripted_def answering_def
          YesNo_json_def generated_message_def)
  show "accepts (Form json_only) placed_form"
    by (simp add: eval_defs placed_form_def contact_form_def name_field_def null_corner_def corner_def)
  show "Coordinate json_only (corner 5 7) = Inr (VModel ''Coordinate'' [(''x'', VInt 5), (''y'', VInt 7)])"
    by (simp add: eval_defs corner_def)
qed

text \<open>
  Claim C7, amended. The \<open>Coordinate\<close> schema admits, in each component, null or an
  integer, from whoever produces the form; that the assistant leaves both null and
  never changes them is asked of the model in the field descriptions and the system
  prompt, and checked nowhere.
\<close>

theorem coordinate_admits_null_or_int:
  assumes "a = JNull \<or> (\<exists>i. a = JInt i)" and "b = JNull \<or> (\<exists>i. b = JInt i)"
  shows "accepts (Coordinate cv) (JObj [(''x'', a), (''y'', b)])"
proof -
  have u: "\<exists>v. union_t [int_t cv, none_t] j = Inr v" if "j = JNull \<or> (\<exists>i. j = JInt i)" for j
    using that by (auto simp: lax_def invalid_def split: option.splits)
  from u [OF assms(1)] u [OF assms(2)] show ?thesis
    by (auto simp: accepts_def Coordinate_def BaseModel_def model_t_def validate_field_def
          obj_member_def Field_def extra_forbidden_def)
qed

theorem coordinate_admits_null_or_int_witness:
  "(JInt 5 = JNull \<or> (\<exists>i. JInt 5 = JInt i)) \<and> (JNull = JNull \<or> (\<exists>i. JNull = JInt i))
   \<and> accepts (Coordinate json_only) (JObj [(''x'', JInt 5), (''y'', JNull)])"
  using coordinate_admits_null_or_int [of "JInt 5" JNull json_only] by simp

subsection \<open>The thread assembler\<close>

text \<open>A valid page is made of base64 characters, which are ASCII, so decoding it never fails.\<close>

lemma base64_char_ascii: "c \<in> set base64_digits \<or> c = CHR ''='' \<Longrightarrow> of_char c < (128 :: nat)"
  by (auto simp: base64_digits_def)

lemma base64_chars_ascii: "base64_chars page \<Longrightarrow> list_all (\<lambda>c. of_char c < (128 :: nat)) page"
  unfolding base64_chars_def list_all_iff using base64_char_ascii by blast

lemma valid_page_chars: "is_valid_base64_image a2b page \<Longrightarrow> base64_chars page"
  by (auto simp: is_valid_base64_image_def b64decode_def split: if_splits)

lemma valid_page_decodes:
  assumes "is_valid_base64_image a2b page"
  shows "decode_utf8 page = Inr page"
  using base64_chars_ascii [OF valid_page_chars [OF assms]] by (simp add: decode_utf8_def)

lemma image_items_filter:
  "image_items a2b pages = Inr (map image_part (filter (is_valid_base64_image a2b) pages))"
  by (induction pages) (simp_all add: valid_page_decodes image_part_def)

lemma content_items_user_items:
  "content_items a2b text form_pages = Inr (user_items a2b text form_pages)"
  by (cases form_pages) (simp_all add: content_items_def user_items_def image_items_filter)


text \<open>
  The store when the model fails: the seed and the user message are committed by then.
\<close>

lemma get_thread_history_cases:
  "(\<exists>thread. get_thread_history s tid = Inr thread) \<or> get_thread_history s tid = Inl (HTTPException 404)"
  by (simp add: get_thread_history_def Let_def)

lemma chat_from_fail:
  assumes "turn lm (map msg_content (sort_key timestamp thread) @ [ContentMessage user items]) = Inl e"
  shows "chat_from turn lm s tid uid thread items
           = (Inl e, s\<lparr>clock := Suc (clock s),
                        message_table := message_table s @ pending s @ [user_row items tid uid (clock s)],
                        pending := []\<rparr>)"
  using assms
  by (simp add: chat_from_def new_Message_def add_def commit_def user_row_def Let_def)

lemma thread_or_seed_eq:
  "thread_or_seed prompt s tid uid =
     (case get_thread_history s tid of
        Inr thread \<Rightarrow> (Inr thread, s)
      | Inl e \<Rightarrow>
          (Inr [system_row prompt tid uid (clock s)],
           s\<lparr>clock := Suc (clock s),
              message_table := message_table s @ pending s @ [system_row prompt tid uid (clock s)],
              pending := []\<rparr>))"
  using get_thread_history_cases [of s tid]
  by (auto simp: thread_or_seed_def new_Message_def add_def commit_def system_row_def)

lemma chat_from_context_fail:
  assumes "pending s = []"
    and "turn lm (turn_context prompt s tid uid items) = Inl e"
    and "thread_or_seed prompt s tid uid = (Inr thread, s1)"
  shows "fst (chat_from turn lm s1 tid uid thread items) = Inl e
       \<and> message_table (snd (chat_from turn lm s1 tid uid thread items))
           = message_table s @ rows_before_model prompt s tid uid items
       \<and> pending (snd (chat_from turn lm s1 tid uid thread items)) = []"
proof (cases "get_thread_history s tid")
  case (Inr th)
  with assms(3) have "thread = th" "s1 = s" by (simp_all add: thread_or_seed_eq)
  with assms(1,2) Inr show ?thesis
    by (simp add: chat_from_fail turn_context_def rows_before_model_def)
next
  case (Inl err)
  with assms(3) have th: "thread = [system_row prompt tid uid (clock s)]"
    and s1: "s1 = s\<lparr>clock := Suc (clock s),
                 message_table := message_table s @ pending s @ [system_row prompt tid uid (clock s)],
                 pending := []\<rparr>"
    by (auto simp: thread_or_seed_eq)
  from assms(2) Inl
  have "turn lm (map msg_content (sort_key timestamp thread) @ [ContentMessage user items]) = Inl e"
    by (simp add: turn_context_def th)
  from chat_from_fail [where turn = turn and lm = lm and s = s1 and tid = tid and uid = uid, OF this]
    assms(1) Inl show ?thesis
    by (simp add: s1 rows_before_model_def)
qed

lemma thread_or_seed_Inr: "\<exists>thread s1. thread_or_seed prompt s tid uid = (Inr thread, s1)"
  using get_thread_history_cases [of s tid]
  by (auto simp: thread_or_seed_def new_Message_def)

lemma Build_fail:
  assumes "pending s = []"
    and "fastformbuild_chat lm
           (turn_context SYSTEM_PROMPT s (thread_id data) (user_id data)
              (user_items a2b (content data) pages)) = Inl e"
  shows "fst (FastformBuildMessageService_chat a2b lm s data pages) = Inl e
       \<and> message_table (snd (FastformBuildMessageService_chat a2b lm s data pages))
           = message_table s @ rows_before_model SYSTEM_PROMPT s (thread_id data) (user_id data)
               (user_items a2b (content data) pages)
       \<and> pending (snd (FastformBuildMessageService_chat a2b lm s data pages)) = []"
proof -
  from thread_or_seed_Inr obtain thread s1
    where t: "thread_or_seed SYSTEM_PROMPT s (thread_id data) (user_id data) = (Inr thread, s1)"
    by blast
  from chat_from_context_fail [where turn = fastformbuild_chat, OF assms t] t show ?thesis
    by (simp add: FastformBuildMessageService_chat_def content_items_user_items)
qed

lemma Fill_fail:
  assumes "pending s = []"
    and "load_annotation s data = Inr annotation"
    and "fastformfill_chat lm
           (turn_context (SYSTEM_PROMPT_FILL (form_structure annotation)) s (thread_id data) (user_id data)
              [text_part (content data)]) = Inl e"
  shows "fst (FastfillMessageService_chat lm s data) = Inl e
       \<and> message_table (snd (FastfillMessageService_chat lm s data))
           = message_table s @ rows_before_model (SYSTEM_PROMPT_FILL (form_structure annotation))
               s (thread_id data) (user_id data) [text_part (content data)]
       \<and> pending (snd (FastfillMessageService_chat lm s data)) = []"
proof -
  from thread_or_seed_Inr obtain thread s1
    where t: "thread_or_seed (SYSTEM_PROMPT_FILL (form_structure annotation)) s (thread_id data) (user_id data)
                = (Inr thread, s1)"
    by blast
  from chat_from_context_fail [where turn = fastformfill_chat, OF assms(1,3) t] t assms(2) show ?thesis
    by (simp add: FastfillMessageService_chat_def)
qed


lemmas service_defs =
  FastformBuildMessageService_chat_def FastfillMessageService_chat_def load_annotation_def
  get_annotation_by_id_def form_structure_def thread_or_seed_def get_thread_history_def
  new_Message_def add_def commit_def chat_from_def content_items_def
  fastformbuild_chat_def fastformfill_chat_def chat_turn_outcome turn_outcome_def
  generated_message_def answering_def YesNo_json_def Let_def






text \<open>
  Claim C8, as stated, fails: on a model that is unavailable the first Build turn of a
  thread ends with the failure and leaves two committed rows in the store, the seeded
  system message and the user message.
\<close>

theorem failed_turn_leaves_rows:
  "FastformBuildMessageService_chat a2b_accept unavailable empty_session build_request None
     = (Inl (ModelError ''unavailable''),
        \<lparr>message_table =
           [system_row SYSTEM_PROMPT ''t1'' ''u1'' 0,
            user_row [text_part ''create a contact form''] ''t1'' ''u1'' 1],
         annotation_table = [], pending = [], clock = 2\<rparr>)"
  by (simp add: service_defs unavailable_def empty_session_def build_request_def system_row_def
        user_row_def numeral_2_eq_2)

text \<open>
  Claim C8, amended. When the model fails in a Build or Fill turn, the turn fails with
  that failure and no message generated in the turn is stored; the store has gained,
  committed, the user message and, on a thread that did not exist, the seeded system
  message before it.
\<close>

theorem failed_turn_keeps_user_message:
  assumes "pending s = []"
  shows "(fastformbuild_chat lm
            (turn_context SYSTEM_PROMPT s (thread_id data) (user_id data)
               (user_items a2b (content data) pages)) = Inl e
          \<longrightarrow> fst (FastformBuildMessageService_chat a2b lm s data pages) = Inl e
            \<and> message_table (snd (FastformBuildMessageService_chat a2b lm s data pages))
                = message_table s @ rows_before_model SYSTEM_PROMPT s (thread_id data) (user_id data)
                    (user_items a2b (content data) pages)
            \<and> pending (snd (FastformBuildMessageService_chat a2b lm s data pages)) = [])
       \<and> (load_annotation s fdata = Inr annotation
          \<and> fastformfill_chat lm
              (turn_context (SYSTEM_PROMPT_FILL (form_structure annotation)) s (thread_id fdata)
                 (user_id fdata) [text_part (content fdata)]) = Inl e
          \<longrightarrow> fst (FastfillMessageService_chat lm s fdata) = Inl e
            \<and> message_table (snd (FastfillMessageService_chat lm s fdata))
                = message_table s @ rows_before_model (SYSTEM_PROMPT_FILL (form_structure annotation))
                    s (thread_id fdata) (user_id fdata) [text_part (content fdata)]
            \<and> pending (snd (FastfillMessageService_chat lm s fdata)) = [])"
  using Build_fail [OF assms] Fill_fail [OF assms] by blast

theorem failed_turn_keeps_user_message_witness:
  "pending empty_session = []
   \<and> fastformbuild_chat unavailable
        (turn_context SYSTEM_PROMPT empty_session (thread_id build_request) (user_id build_request)
           (user_items a2b_accept (content build_request) None)) = Inl (ModelError ''unavailable'')
   \<and> fst (FastformBuildMessageService_chat a2b_accept unavailable empty_session build_request None)
        = Inl (ModelError ''unavailable'')
   \<and> message_table (snd (FastformBuildMessageService_chat a2b_accept unavailable empty_session build_request None))
        = message_table empty_session
          @ rows_before_model SYSTEM_PROMPT empty_session (thread_id build_request) (user_id build_request)
              (user_items a2b_accept (content build_request) None)
   \<and> load_annotation empty_session plain_fill_request = Inr None
   \<and> fastformfill_chat unavailable
        (turn_context (SYSTEM_PROMPT_FILL (form_structure None)) empty_session
           (thread_id plain_fill_request) (user_id plain_fill_request)
           [text_part (content plain_fill_request)]) = Inl (ModelError ''unavailable'')
   \<and> fst (FastfillMessageService_chat unavailable empty_session plain_fill_request)
        = Inl (ModelError ''unavailable'')
   \<and> message_table (snd (FastfillMessageService_chat unavailable empty_session plain_fill_request))
        = message_table empty_session
          @ rows_before_model (SYSTEM_PROMPT_FILL (form_structure None)) empty_session
              (thread_id plain_fill_request) (user_id plain_fill_request)
              [text_part (content plain_fill_request)]"
proof -
  have 1: "pending empty_session = []" by (simp add: empty_session_def)
  have 2: "fastformbuild_chat unavailable
        (turn_context SYSTEM_PROMPT empty_session (thread_id build_request) (user_id build_request)
           (user_items a2b_accept (content build_request) None)) = Inl (ModelError ''unavailable'')"
    by (simp add: fastformbuild_chat_def chat_turn_outcome turn_outcome_def unavailable_def)
  have 3: "load_annotation empty_session plain_fill_request = Inr None"
    by (simp add: load_annotation_def plain_fill_request_def)
  have 4: "fastformfill_chat unavailable
        (turn_context (SYSTEM_PROMPT_FILL (form_structure None)) empty_session
           (thread_id plain_fill_request) (user_id plain_fill_request)
           [text_part (content plain_fill_request)]) = Inl (ModelError ''unavailable'')"
    by (simp add: fastformfill_chat_def chat_turn_outcome turn_outcome_def unavailable_def)
  from 1 2 3 4
    failed_turn_keeps_user_message [OF 1, of unavailable build_request a2b_accept None
      "ModelError ''unavailable''" plain_fill_request None]
  show ?thesis by blast
qed

subsection \<open>The Fill flow\<close>

text \<open>
  Claim C3, as stated, fails: with the contact form stored (one text field "Name") and a
  model that answers the \<open>Form\<close> request with a survey form (one number field "Age"), the
  Fill turn returns the survey as the structure message. The survey is a valid \<open>Form\<close>,
  and it differs from the stored form in more than values.
\<close>

theorem fill_changes_structure:
  "fst (FastfillMessageService_chat (scripted yes age_form ''Done'') stored_session fill_request)
     = Inr [\<lparr>msg_content = ContentMessage assistant [json_part age_form],
             msg_thread_id = ''t1'', msg_user_id = ''u1'', timestamp = 2\<rparr>,
            \<lparr>msg_content = ContentMessage assistant [text_part ''Done''],
             msg_thread_id = ''t1'', msg_user_id = ''u1'', timestamp = 3\<rparr>]
   \<and> accepts (Form json_only) age_form
   \<and> strip_values age_form \<noteq> strip_values stored_form"
proof (intro conjI)
  show "fst (FastfillMessageService_chat (scripted yes age_form ''Done'') stored_session fill_request)
     = Inr [\<lparr>msg_content = ContentMessage assistant [json_part age_form],
             msg_thread_id = ''t1'', msg_user_id = ''u1'', timestamp = 2\<rparr>,
            \<lparr>msg_content = ContentMessage assistant [text_part ''Done''],
             msg_thread_id = ''t1'', msg_user_id = ''u1'', timestamp = 3\<rparr>]"
    by (simp add: service_defs scripted_def stored_session_def fill_request_def)
  show "accepts (Form json_only) age_form"
    by (simp add: eval_defs age_form_def null_corner_def)
  show "strip_values age_form \<noteq> strip_values stored_form"
    by (simp add: age_form_def stored_form_def contact_form_def)
qed

text \<open>
  Claim C3, amended. In a Fill turn where the classifier decides yes, the structured
  generation is the one requested with the \<open>Form\<close> schema, over the conversation; the
  structure message returned carries the document that generation produced, whatever
  its relation to the stored structure, and the commentary follows it.
\<close>

theorem fill_returns_generated_form:
  assumes "json lm YesNo_schema (msgs @ [ContentMessage assistant [text_part FILL_ANALYZE]])
             = Inr yes_no"
    and "getitem yes_no ''selection'' = Inr (JStr ''yes'')"
    and "json lm Form_schema
           (msgs @ [ContentMessage assistant [text_part FILL_ANALYZE],
                    ContentMessage assistant [json_part yes_no],
                    ContentMessage assistant [text_part FILL_GENERATE]]) = Inr v"
    and "gen lm
           (msgs @ [ContentMessage assistant [text_part FILL_ANALYZE],
                    ContentMessage assistant [json_part yes_no],
                    ContentMessage assistant [text_part FILL_GENERATE],
                    ContentMessage assistant [json_part v],
                    ContentMessage assistant [text_part FILL_COMMENT]]) = Inr s"
  shows "fastformfill_chat lm msgs
           = Inr [Some (ContentMessage assistant [json_part v]), generated_message s]"
  using assms by (simp add: fastformfill_chat_def chat_turn_outcome turn_outcome_def)

theorem fill_returns_generated_form_witness:
  "json (scripted yes age_form ''Done'') YesNo_schema
       ([] @ [ContentMessage assistant [text_part FILL_ANALYZE]])
     = Inr (YesNo_json yes)
   \<and> getitem (YesNo_json yes) ''selection'' = Inr (JStr ''yes'')
   \<and> json (scripted yes age_form ''Done'') Form_schema
        ([] @ [ContentMessage assistant [text_part FILL_ANALYZE],
               ContentMessage assistant [json_part (YesNo_json yes)],
               ContentMessage assistant [text_part FILL_GENERATE]]) = Inr age_form
   \<and> gen (scripted yes age_form ''Done'')
        ([] @ [ContentMessage assistant [text_part FILL_ANALYZE],
               ContentMessage assistant [json_part (YesNo_json yes)],
               ContentMessage assistant [text_part FILL_GENERATE],
               ContentMessage assistant [json_part age_form],
               ContentMessage assistant [text_part FILL_COMMENT]]) = Inr ''Done''
   \<and> fastformfill_chat (scripted yes age_form ''Done'') []
        = Inr [Some (ContentMessage assistant [json_part age_form]),
               Some (ContentMessage assistant [text_part ''Done''])]"
  using fill_returns_generated_form [of "scripted yes age_form ''Done''" "[]" "YesNo_json yes"
      age_form "''Done''"]
  by (simp add: scripted_def answering_def YesNo_json_def generated_message_def)

end
